theory Spec2Isabelle
  imports Complex_Main
begin

section \<open>Numeric values and series\<close>

text \<open>
  A pandas/numpy \<open>float64\<close> cell. The finite values are idealised as reals (rounding is
  not modelled); the three special values are kept, because the code relies on them:
  a comparison with \<open>NaN\<close> is false, \<open>x / 0\<close> is an infinity or \<open>NaN\<close> and never raises.
  Zeros are unsigned: \<open>x / 0\<close> takes the sign of \<open>x\<close>.
\<close>

datatype fl = NaN | NInf | Fin real | PInf

datatype py_error = ValueError | KeyError | IndexError | TALibError

type_synonym series = "fl list"

fun fl_lt :: "fl \<Rightarrow> fl \<Rightarrow> bool" where
  "fl_lt NaN _ = False"
| "fl_lt _ NaN = False"
| "fl_lt (Fin a) (Fin b) = (a < b)"
| "fl_lt NInf NInf = False"
| "fl_lt NInf _ = True"
| "fl_lt _ NInf = False"
| "fl_lt PInf _ = False"
| "fl_lt _ PInf = True"

fun fl_le :: "fl \<Rightarrow> fl \<Rightarrow> bool" where
  "fl_le NaN _ = False"
| "fl_le _ NaN = False"
| "fl_le (Fin a) (Fin b) = (a \<le> b)"
| "fl_le NInf _ = True"
| "fl_le _ PInf = True"
| "fl_le _ NInf = False"
| "fl_le PInf _ = False"

text \<open>Sign of a value that is not NaN, and the infinity (or NaN, for sign 0) of a sign.\<close>

fun fl_sgn :: "fl \<Rightarrow> int" where
  "fl_sgn NaN = 0"
| "fl_sgn NInf = - 1"
| "fl_sgn PInf = 1"
| "fl_sgn (Fin a) = (if a < 0 then - 1 else if a = 0 then 0 else 1)"

definition inf_of_sign :: "int \<Rightarrow> fl" where
  "inf_of_sign s = (if s < 0 then NInf else if s = 0 then NaN else PInf)"

fun fl_neg :: "fl \<Rightarrow> fl" where
  "fl_neg NaN = NaN"
| "fl_neg NInf = PInf"
| "fl_neg PInf = NInf"
| "fl_neg (Fin a) = Fin (- a)"

fun fl_add :: "fl \<Rightarrow> fl \<Rightarrow> fl" where
  "fl_add NaN _ = NaN"
| "fl_add _ NaN = NaN"
| "fl_add (Fin a) (Fin b) = Fin (a + b)"
| "fl_add PInf NInf = NaN"
| "fl_add NInf PInf = NaN"
| "fl_add PInf _ = PInf"
| "fl_add _ PInf = PInf"
| "fl_add NInf _ = NInf"
| "fl_add _ NInf = NInf"

definition fl_sub :: "fl \<Rightarrow> fl \<Rightarrow> fl" where
  "fl_sub a b = fl_add a (fl_neg b)"

fun fl_mul :: "fl \<Rightarrow> fl \<Rightarrow> fl" where
  "fl_mul NaN _ = NaN"
| "fl_mul _ NaN = NaN"
| "fl_mul (Fin a) (Fin b) = Fin (a * b)"
| "fl_mul a b = inf_of_sign (fl_sgn a * fl_sgn b)"

fun fl_div :: "fl \<Rightarrow> fl \<Rightarrow> fl" where
  "fl_div NaN _ = NaN"
| "fl_div _ NaN = NaN"
| "fl_div (Fin a) (Fin b) = (if b = 0 then inf_of_sign (fl_sgn (Fin a)) else Fin (a / b))"
| "fl_div (Fin a) _ = Fin 0"
| "fl_div a (Fin b) = inf_of_sign (fl_sgn a * (if b < 0 then - 1 else 1))"
| "fl_div _ _ = NaN"

text \<open>\<open>Series.iloc[i]\<close> for a Python integer \<open>i\<close>: a position from the front when
  \<open>i\<close> is not negative, from the back when it is, \<open>IndexError\<close> outside the series.\<close>

definition iloc :: "series \<Rightarrow> int \<Rightarrow> py_error + fl" where
  "iloc xs i =
     (if 0 \<le> i \<and> i < int (length xs) then Inr (xs ! nat i)
      else if i < 0 \<and> - int (length xs) \<le> i then Inr (xs ! nat (int (length xs) + i))
      else Inl IndexError)"

text \<open>numpy reductions over a Python list of floats.\<close>

definition np_mean :: "fl list \<Rightarrow> fl" where
  "np_mean xs = fl_div (fold (\<lambda>x acc. fl_add acc x) xs (Fin 0)) (Fin (real (length xs)))"

definition fl_max :: "fl \<Rightarrow> fl \<Rightarrow> fl" where
  "fl_max a b = (if a = NaN \<or> b = NaN then NaN else if fl_lt a b then b else a)"

definition fl_min :: "fl \<Rightarrow> fl \<Rightarrow> fl" where
  "fl_min a b = (if a = NaN \<or> b = NaN then NaN else if fl_lt b a then b else a)"

fun np_max :: "fl list \<Rightarrow> py_error + fl" where
  "np_max [] = Inl ValueError"
| "np_max (x # xs) = Inr (fold (\<lambda>y acc. fl_max acc y) xs x)"

fun np_min :: "fl list \<Rightarrow> py_error + fl" where
  "np_min [] = Inl ValueError"
| "np_min (x # xs) = Inr (fold (\<lambda>y acc. fl_min acc y) xs x)"

section \<open>Series utilities (utils/helpers.py)\<close>

text \<open>\<open>Series.shift(1)\<close>: every value moves one position down, position 0 becomes NaN,
  the length is kept.\<close>

fun shift1 :: "series \<Rightarrow> series" where
  "shift1 [] = []"
| "shift1 (x # xs) = NaN # butlast (x # xs)"

text \<open>Elementwise comparisons of two identically labelled series; labels are positions.\<close>

definition series_gt :: "series \<Rightarrow> series \<Rightarrow> bool list" where
  "series_gt a b = map2 (\<lambda>x y. fl_lt y x) a b"

definition series_lt :: "series \<Rightarrow> series \<Rightarrow> bool list" where
  "series_lt a b = map2 (\<lambda>x y. fl_lt x y) a b"

definition series_ge :: "series \<Rightarrow> series \<Rightarrow> bool list" where
  "series_ge a b = map2 (\<lambda>x y. fl_le y x) a b"

definition series_le :: "series \<Rightarrow> series \<Rightarrow> bool list" where
  "series_le a b = map2 (\<lambda>x y. fl_le x y) a b"

definition series_and :: "bool list \<Rightarrow> bool list \<Rightarrow> bool list" where
  "series_and a b = map2 (\<lambda>x y. x \<and> y) a b"

text \<open>
  \<open>identify_cross_signals(fast_line, slow_line)\<close>. pandas refuses to compare series that
  are not identically labelled (\<open>ValueError\<close>), which for positional labels is a
  difference in length.
\<close>

definition identify_cross_signals ::
  "series \<Rightarrow> series \<Rightarrow> py_error + (bool list \<times> bool list)" where
  "identify_cross_signals fast_line slow_line =
     (if length fast_line \<noteq> length slow_line then Inl ValueError
      else
        let golden_cross = series_and (series_gt fast_line slow_line)
                             (series_le (shift1 fast_line) (shift1 slow_line));
            death_cross = series_and (series_lt fast_line slow_line)
                            (series_ge (shift1 fast_line) (shift1 slow_line))
        in Inr (golden_cross, death_cross))"

definition count_signals :: "bool list \<Rightarrow> nat" where
  "count_signals signal_series = length (filter id signal_series)"

section \<open>Forward returns after a signal (analysis/statistics.py)\<close>

record signal_stats =
  signal_count :: nat
  avg_return :: fl
  win_rate :: fl
  max_return :: fl
  min_return :: fl
  total_trades :: nat

text \<open>
  The body of the loop in \<open>_calculate_signal_returns\<close> for the signal at position \<open>i\<close> of
  the signal series: \<open>None\<close> when nothing is appended to \<open>returns_list\<close>. The index of
  \<open>self.data\<close> is positional, so \<open>get_loc\<close> raises \<open>KeyError\<close> exactly for a position past
  the end of the data; \<open>KeyError\<close> and \<open>IndexError\<close> are caught and the signal is skipped.
\<close>

definition signal_return :: "series \<Rightarrow> int \<Rightarrow> nat \<Rightarrow> fl option" where
  "signal_return closes holding_days i =
     (if length closes \<le> i then None
      else if int i + holding_days < int (length closes) then
        (case iloc closes (int i) of
           Inl _ \<Rightarrow> None
         | Inr entry_price \<Rightarrow>
             (case iloc closes (int i + holding_days) of
                Inl _ \<Rightarrow> None
              | Inr exit_price \<Rightarrow> Some (fl_div (fl_sub exit_price entry_price) entry_price)))
      else None)"

definition signal_points :: "bool list \<Rightarrow> nat list" where
  "signal_points signal_series = filter (\<lambda>i. signal_series ! i) [0..<length signal_series]"

definition returns_list :: "series \<Rightarrow> bool list \<Rightarrow> int \<Rightarrow> fl list" where
  "returns_list closes signal_series holding_days =
     List.map_filter (signal_return closes holding_days) (signal_points signal_series)"

definition calculate_signal_returns :: "series \<Rightarrow> bool list \<Rightarrow> int \<Rightarrow> signal_stats" where
  "calculate_signal_returns closes signal_series holding_days =
     (let rl = returns_list closes signal_series holding_days;
          n = length rl
      in if rl \<noteq> [] then
           \<lparr> signal_count = n,
             avg_return = fl_mul (np_mean rl) (Fin 100),
             win_rate = Fin (real (length (filter (\<lambda>r. fl_lt (Fin 0) r) rl)) / real n * 100),
             max_return = (case np_max rl of Inr m \<Rightarrow> fl_mul m (Fin 100) | Inl _ \<Rightarrow> NaN),
             min_return = (case np_min rl of Inr m \<Rightarrow> fl_mul m (Fin 100) | Inl _ \<Rightarrow> NaN),
             total_trades = length (signal_points signal_series) \<rparr>
         else
           \<lparr> signal_count = n, avg_return = Fin 0, win_rate = Fin 0,
             max_return = Fin 0, min_return = Fin 0,
             total_trades = length (signal_points signal_series) \<rparr>)"

section \<open>The RSI of the indicator library\<close>

text \<open>
  Modelled from the spec: \<open>tb.RSI\<close>, the TA-Lib function that \<open>calculate_rsi\<close> calls, is not
  among the sources. The specification: average gain and average loss over the trailing
  \<open>period\<close> bars with Wilder-style smoothing; \<open>RS = avg_gain / avg_loss\<close>,
  \<open>RSI = 100 - 100 / (1 + RS)\<close>; when \<open>avg_loss = 0\<close>, \<open>RSI = 100\<close>; the warm-up window is
  undefined (NaN). For closes that never move both averages are 0, and there the
  specification speaks twice: 100 by the sentence above, 50 or NaN by its flat-series
  scenario. The library the code calls returns 0 in that case, and the model follows the
  library. Closes are finite and taken as reals.
\<close>

text \<open>Modelled from the spec: the gain (up move) and the loss (down move) of each bar
  after the first, which the averages of \<open>tb.RSI\<close> (not among the sources) are taken over.\<close>

fun gains :: "real list \<Rightarrow> real list" where
  "gains (a # b # xs) = max (b - a) 0 # gains (b # xs)"
| "gains _ = []"

fun losses :: "real list \<Rightarrow> real list" where
  "losses (a # b # xs) = max (a - b) 0 # losses (b # xs)"
| "losses _ = []"

text \<open>Modelled from the spec: the Wilder-style smoothing inside \<open>tb.RSI\<close> (not among the
  sources): the mean of the first \<open>period\<close> values, then
  \<open>avg = (avg * (period - 1) + x) / period\<close> for every further value.\<close>

fun wilder_from :: "nat \<Rightarrow> real \<Rightarrow> real list \<Rightarrow> real list" where
  "wilder_from period avg [] = []"
| "wilder_from period avg (x # xs) =
     ((avg * (real period - 1) + x) / real period)
       # wilder_from period ((avg * (real period - 1) + x) / real period) xs"






section \<open>Risk metrics: max drawdown (analysis/statistics.py)\<close>

text \<open>
  \<open>calculate_risk_metrics\<close>, the max-drawdown lines. \<open>self.returns\<close> is
  \<open>pct_change().dropna()\<close> of the close prices: it holds no NaN, but it holds an infinity
  after a close of 0, so the return series is a series of floats like any other.
\<close>

text \<open>\<open>Series.cumprod()\<close>: the running product; a NaN entry gives NaN at its place and is
  left out of the product.\<close>

fun cumprod_from :: "fl \<Rightarrow> series \<Rightarrow> series" where
  "cumprod_from acc [] = []"
| "cumprod_from acc (x # xs) =
     (if x = NaN then NaN # cumprod_from acc xs
      else fl_mul acc x # cumprod_from (fl_mul acc x) xs)"


text \<open>\<open>Series.expanding().max()\<close>: the largest value so far that is not NaN, and NaN as long
  as there is none; \<open>m\<close> is the value at the previous position.\<close>

fun expanding_from :: "fl \<Rightarrow> series \<Rightarrow> series" where
  "expanding_from m [] = []"
| "expanding_from m (x # xs) =
     (if x = NaN then m # expanding_from m xs
      else if m = NaN \<or> fl_lt m x then x # expanding_from x xs
      else m # expanding_from m xs)"








section \<open>Data loading (data/data_loader.py, utils/helpers.py)\<close>

text \<open>
  A row of the fetched frame, reduced to the columns the loader keeps: the trade date (a
  day number) and the five numeric columns, which the provider delivers as floats. After
  \<open>set_index\<close> and \<open>rename\<close> the date is the index and the columns are \<open>Open\<close>, \<open>High\<close>,
  \<open>Low\<close>, \<open>Close\<close>, \<open>Volume\<close>; the coercion loop of \<open>clean_stock_data\<close> looks for the
  lower-case names, finds none of them in the renamed frame and changes nothing.
\<close>

record bar =
  trade_date :: nat
  Open :: fl
  High :: fl
  Low :: fl
  Close :: fl
  Volume :: fl

definition bar_values :: "bar \<Rightarrow> fl list" where
  "bar_values b = [Open b, High b, Low b, Close b, Volume b]"

text \<open>\<open>df.dropna()\<close>: a row with a NaN in any column goes.\<close>

definition dropna :: "bar list \<Rightarrow> bar list" where
  "dropna df = filter (\<lambda>b. NaN \<notin> set (bar_values b)) df"

text \<open>\<open>df.drop_duplicates()\<close>: of the rows with the same column values (the index is not
  compared) the first one stays.\<close>

fun drop_duplicates_seen :: "fl list list \<Rightarrow> bar list \<Rightarrow> bar list" where
  "drop_duplicates_seen seen [] = []"
| "drop_duplicates_seen seen (b # df) =
     (if bar_values b \<in> set seen then drop_duplicates_seen seen df
      else b # drop_duplicates_seen (bar_values b # seen) df)"

definition drop_duplicates :: "bar list \<Rightarrow> bar list" where
  "drop_duplicates df = drop_duplicates_seen [] df"

text \<open>\<open>df.replace([np.inf, -np.inf], np.nan)\<close>\<close>

definition inf_to_nan :: "fl \<Rightarrow> fl" where
  "inf_to_nan v = (if v = PInf \<or> v = NInf then NaN else v)"

definition replace_inf :: "bar list \<Rightarrow> bar list" where
  "replace_inf df =
     map (\<lambda>b. b\<lparr> Open := inf_to_nan (Open b), High := inf_to_nan (High b),
                 Low := inf_to_nan (Low b), Close := inf_to_nan (Close b),
                 Volume := inf_to_nan (Volume b) \<rparr>) df"

definition clean_stock_data :: "bar list \<Rightarrow> bar list" where
  "clean_stock_data df = dropna (replace_inf (drop_duplicates (dropna df)))"

text \<open>
  \<open>_preprocess_data\<close>: sort by date, index, rename, keep the core columns, clean, and the
  check of the number of rows. (\<open>sort_values\<close> does not promise the order of rows with
  equal dates; the model keeps their order.)
\<close>

definition preprocess_data :: "bar list \<Rightarrow> py_error + bar list" where
  "preprocess_data df =
     (let df = sort_key trade_date df;
          df = clean_stock_data df
      in if length df < 30 then Inl ValueError else Inr df)"

text \<open>
  \<open>get_daily_data\<close>, given what \<open>self.pro.daily\<close> returned (a frame or an exception): an
  empty frame is a \<open>ValueError\<close>; every exception is printed and raised again.
\<close>

definition get_daily_data :: "py_error + bar list \<Rightarrow> py_error + bar list" where
  "get_daily_data fetched =
     (case fetched of
        Inl e \<Rightarrow> Inl e
      | Inr df \<Rightarrow> if df = [] then Inl ValueError else preprocess_data df)"

text \<open>A series of \<open>n\<close> distinct clean bars, for running the loader.\<close>

definition sample_bar :: "nat \<Rightarrow> bar" where
  "sample_bar i = \<lparr> trade_date = i, Open = Fin (real i), High = Fin (real i),
                     Low = Fin (real i), Close = Fin (real i), Volume = Fin (real i) \<rparr>"

section \<open>Squeeze episodes (indicators/bollinger.py)\<close>

text \<open>
  The loop of \<open>analyze_squeeze_pattern\<close> that collects \<open>squeeze_periods\<close>, over the boolean
  series \<open>squeeze_condition\<close>. The loop state is \<open>(in_squeeze, squeeze_start,
  squeeze_periods)\<close>; \<open>squeeze_start\<close> is \<open>None\<close> before the first squeeze. Nothing follows the
  loop that would close a run still open at the end of the series.
\<close>

type_synonym squeeze_state = "bool \<times> int option \<times> (int \<times> int) list"

fun squeeze_step :: "nat \<times> bool \<Rightarrow> squeeze_state \<Rightarrow> squeeze_state" where
  "squeeze_step (i, is_squeeze) (in_squeeze, squeeze_start, squeeze_periods) =
     (if is_squeeze \<and> \<not> in_squeeze then (True, Some (int i), squeeze_periods)
      else if \<not> is_squeeze \<and> in_squeeze then
        (False, squeeze_start,
         (case squeeze_start of
            None \<Rightarrow> squeeze_periods
          | Some s \<Rightarrow> squeeze_periods @ [(s, int i - 1)]))
      else (in_squeeze, squeeze_start, squeeze_periods))"

definition squeeze_loop :: "bool list \<Rightarrow> squeeze_state" where
  "squeeze_loop squeeze_condition =
     fold squeeze_step (enumerate 0 squeeze_condition) (False, None, [])"

definition squeeze_periods_of :: "bool list \<Rightarrow> (int \<times> int) list" where
  "squeeze_periods_of squeeze_condition = snd (snd (squeeze_loop squeeze_condition))"

definition total_squeezes :: "bool list \<Rightarrow> nat" where
  "total_squeezes squeeze_condition = length (squeeze_periods_of squeeze_condition)"

text \<open>
  \<open>run_at c s e\<close>: positions \<open>s..e\<close> of \<open>c\<close> are all true and the run cannot be extended to
  the left. \<open>completed_run\<close>: moreover position \<open>e + 1\<close> exists and is false.
\<close>

definition run_at :: "bool list \<Rightarrow> nat \<Rightarrow> nat \<Rightarrow> bool" where
  "run_at c s e \<longleftrightarrow>
     s \<le> e \<and> e < length c \<and> (\<forall>k \<in> {s..e}. c ! k) \<and> (s = 0 \<or> \<not> c ! (s - 1))"

definition completed_run :: "bool list \<Rightarrow> nat \<Rightarrow> nat \<Rightarrow> bool" where
  "completed_run c s e \<longleftrightarrow> run_at c s e \<and> Suc e < length c \<and> \<not> c ! Suc e"

text \<open>Invariant of the loop after reading the prefix \<open>xs\<close>.\<close>

definition squeeze_inv :: "bool list \<Rightarrow> squeeze_state \<Rightarrow> bool" where
  "squeeze_inv xs st \<longleftrightarrow>
     (case st of (b, start, ps) \<Rightarrow>
        (b \<longleftrightarrow> xs \<noteq> [] \<and> last xs)
      \<and> (b \<longrightarrow> (\<exists>s. start = Some (int s) \<and> run_at xs s (length xs - 1)))
      \<and> set ps = {(int s, int e) | s e. completed_run xs s e}
      \<and> distinct ps)"

section \<open>Data frames, object references and the indicator library\<close>

text \<open>
  A \<open>DataFrame\<close>: an index (the trade dates) and the columns in their order, each a series
  as long as the index. Frames are mutable objects reached through references, so they
  live in a heap; a reference is a position of the heap. \<open>data.copy()\<close> allocates a new
  frame with the same contents.
\<close>

type_synonym 'a result = "py_error + 'a"

type_synonym pydict = "(string \<times> series) list"

record dataframe =
  df_index :: "nat list"
  df_columns :: pydict

type_synonym heap = "dataframe list"

text \<open>\<open>d[key] = value\<close> on a dict or a frame: an existing key keeps its place and gets the
  new value, a new key goes to the end.\<close>

fun set_item :: "string \<Rightarrow> series \<Rightarrow> pydict \<Rightarrow> pydict" where
  "set_item k v [] = [(k, v)]"
| "set_item k v ((k', v') # d) = (if k' = k then (k, v) # d else (k', v') # set_item k v d)"

definition get_item :: "pydict \<Rightarrow> string \<Rightarrow> series result" where
  "get_item d k = (case map_of d k of None \<Rightarrow> Inl KeyError | Some v \<Rightarrow> Inr v)"

text \<open>\<open>d.update(other)\<close>, and the loop \<open>for key, series in d.items(): self.data[key] = series\<close>.\<close>

definition dict_update :: "pydict \<Rightarrow> pydict \<Rightarrow> pydict" where
  "dict_update d other = fold (\<lambda>(k, v). set_item k v) other d"

definition df_set :: "string \<Rightarrow> series \<Rightarrow> dataframe \<Rightarrow> dataframe" where
  "df_set k v df = df\<lparr>df_columns := set_item k v (df_columns df)\<rparr>"

definition df_set_all :: "pydict \<Rightarrow> dataframe \<Rightarrow> dataframe" where
  "df_set_all d df = fold (\<lambda>(k, v). df_set k v) d df"

definition df_get :: "dataframe \<Rightarrow> string \<Rightarrow> series result" where
  "df_get df k = get_item (df_columns df) k"

definition df_copy :: "heap \<Rightarrow> nat \<Rightarrow> nat \<times> heap" where
  "df_copy h a = (length h, h @ [h ! a])"

text \<open>\<open>pd.Series(values, index=index)\<close> raises \<open>ValueError\<close> when the lengths differ.\<close>

definition mk_series :: "nat list \<Rightarrow> series \<Rightarrow> series result" where
  "mk_series idx vals = (if length vals = length idx then Inr vals else Inl ValueError)"

definition bind_err :: "'a result \<Rightarrow> ('a \<Rightarrow> 'b result) \<Rightarrow> 'b result" where
  "bind_err m f = (case m of Inl e \<Rightarrow> Inl e | Inr x \<Rightarrow> f x)"

text \<open>Arithmetic of two series with the same index.\<close>

definition series_sub :: "series \<Rightarrow> series \<Rightarrow> series" where
  "series_sub a b = map2 fl_sub a b"

definition series_div :: "series \<Rightarrow> series \<Rightarrow> series" where
  "series_div a b = map2 fl_div a b"

text \<open>
  The TA-Lib functions the calculators call. The library is not part of the repository;
  the calculators are modelled for any functions of these types (arguments in, arrays or
  an exception out).
\<close>

record talib =
  tb_SMA :: "series \<Rightarrow> int \<Rightarrow> series result"
  tb_EMA :: "series \<Rightarrow> int \<Rightarrow> series result"
  tb_BBANDS :: "series \<Rightarrow> int \<Rightarrow> fl \<Rightarrow> fl \<Rightarrow> (series \<times> series \<times> series) result"
  tb_STOCH :: "series \<Rightarrow> series \<Rightarrow> series \<Rightarrow> int \<Rightarrow> int \<Rightarrow> int \<Rightarrow> (series \<times> series) result"
  tb_RSI :: "series \<Rightarrow> int \<Rightarrow> series result"
  tb_MACD :: "series \<Rightarrow> int \<Rightarrow> int \<Rightarrow> int \<Rightarrow> (series \<times> series \<times> series) result"

text \<open>utils/config.py\<close>

definition MA_PERIODS_sma :: "int list" where "MA_PERIODS_sma = [5, 10, 20, 60]"
definition MA_PERIODS_ema :: "int list" where "MA_PERIODS_ema = [12, 26]"
definition BOLLINGER_CONFIG_period :: int where "BOLLINGER_CONFIG_period = 20"
definition BOLLINGER_CONFIG_std_dev :: fl where "BOLLINGER_CONFIG_std_dev = Fin 2"
definition KDJ_CONFIG_fastk_period :: int where "KDJ_CONFIG_fastk_period = 9"
definition KDJ_CONFIG_slowk_period :: int where "KDJ_CONFIG_slowk_period = 3"
definition KDJ_CONFIG_slowd_period :: int where "KDJ_CONFIG_slowd_period = 3"
definition RSI_CONFIG_period :: int where "RSI_CONFIG_period = 14"
definition MACD_CONFIG_fast_period :: int where "MACD_CONFIG_fast_period = 12"
definition MACD_CONFIG_slow_period :: int where "MACD_CONFIG_slow_period = 26"
definition MACD_CONFIG_signal_period :: int where "MACD_CONFIG_signal_period = 9"

definition default :: "'a option \<Rightarrow> 'a \<Rightarrow> 'a" where
  "default x d = (case x of None \<Rightarrow> d | Some v \<Rightarrow> v)"

section \<open>BollingerBands (indicators/bollinger.py)\<close>

text \<open>
  The object: \<open>self.data\<close> is a reference to the object's own copy of the caller's frame,
  \<open>self.close\<close> a fresh array of the close prices, \<open>self.bollinger_data\<close> a dict. A method
  returns its result (or the exception it raises) together with the object and the heap as
  it leaves them.
\<close>

record bollinger_bands =
  bb_data :: nat
  bb_close :: series
  bollinger_data :: pydict

definition BollingerBands_init :: "heap \<Rightarrow> nat \<Rightarrow> bollinger_bands result \<times> heap" where
  "BollingerBands_init h data =
     (let (self_data, h') = df_copy h data
      in case df_get (h ! data) ''Close'' of
           Inl e \<Rightarrow> (Inl e, h')
         | Inr close \<Rightarrow>
             (Inr \<lparr> bb_data = self_data, bb_close = close, bollinger_data = [] \<rparr>, h'))"

text \<open>The call of \<open>tb.BBANDS\<close> and the dict literal built from its three arrays.\<close>

definition bollinger_dict :: "talib \<Rightarrow> int \<Rightarrow> fl \<Rightarrow> series \<Rightarrow> nat list \<Rightarrow> pydict result" where
  "bollinger_dict ta period std_dev close idx =
     bind_err (tb_BBANDS ta close period std_dev std_dev) (\<lambda>(upper, middle, lower).
     bind_err (mk_series idx upper) (\<lambda>upper.
     bind_err (mk_series idx middle) (\<lambda>middle.
     bind_err (mk_series idx lower) (\<lambda>lower.
       Inr [(''BB_Upper'', upper), (''BB_Middle'', middle), (''BB_Lower'', lower)]))))"

definition calculate_bollinger_bands ::
  "talib \<Rightarrow> int option \<Rightarrow> fl option \<Rightarrow> bollinger_bands \<Rightarrow> heap
     \<Rightarrow> pydict result \<times> bollinger_bands \<times> heap" where
  "calculate_bollinger_bands ta period std_dev self h =
     (let period = default period BOLLINGER_CONFIG_period;
          std_dev = default std_dev BOLLINGER_CONFIG_std_dev
      in case bollinger_dict ta period std_dev (bb_close self) (df_index (h ! bb_data self))
         of Inl e \<Rightarrow> (Inl e, self, h)
          | Inr bd \<Rightarrow>
              (Inr bd, self\<lparr>bollinger_data := bd\<rparr>,
               h[bb_data self := df_set_all bd (h ! bb_data self)]))"

text \<open>\<open>if not self.bollinger_data: self.calculate_bollinger_bands()\<close>\<close>

definition ensure_bollinger ::
  "talib \<Rightarrow> bollinger_bands \<Rightarrow> heap \<Rightarrow> unit result \<times> bollinger_bands \<times> heap" where
  "ensure_bollinger ta self h =
     (if bollinger_data self = [] then
        (case calculate_bollinger_bands ta None None self h of
           (Inl e, self', h') \<Rightarrow> (Inl e, self', h')
         | (Inr _, self', h') \<Rightarrow> (Inr (), self', h'))
      else (Inr (), self, h))"

definition calculate_band_width ::
  "talib \<Rightarrow> bollinger_bands \<Rightarrow> heap \<Rightarrow> series result \<times> bollinger_bands \<times> heap" where
  "calculate_band_width ta self h =
     (case ensure_bollinger ta self h of
        (Inl e, self, h) \<Rightarrow> (Inl e, self, h)
      | (Inr _, self, h) \<Rightarrow>
          (case bind_err (get_item (bollinger_data self) ''BB_Upper'') (\<lambda>upper.
                bind_err (get_item (bollinger_data self) ''BB_Lower'') (\<lambda>lower.
                bind_err (get_item (bollinger_data self) ''BB_Middle'') (\<lambda>middle.
                  Inr (series_div (series_sub upper lower) middle))))
           of Inl e \<Rightarrow> (Inl e, self, h)
            | Inr band_width \<Rightarrow>
                (Inr band_width, self,
                 h[bb_data self := df_set ''BB_Width'' band_width (h ! bb_data self)])))"

definition calculate_percent_b ::
  "talib \<Rightarrow> bollinger_bands \<Rightarrow> heap \<Rightarrow> series result \<times> bollinger_bands \<times> heap" where
  "calculate_percent_b ta self h =
     (case ensure_bollinger ta self h of
        (Inl e, self, h) \<Rightarrow> (Inl e, self, h)
      | (Inr _, self, h) \<Rightarrow>
          (case bind_err (mk_series (df_index (h ! bb_data self)) (bb_close self))
                  (\<lambda>close_prices.
                bind_err (get_item (bollinger_data self) ''BB_Upper'') (\<lambda>upper.
                bind_err (get_item (bollinger_data self) ''BB_Lower'') (\<lambda>lower.
                  Inr (series_div (series_sub close_prices lower) (series_sub upper lower)))))
           of Inl e \<Rightarrow> (Inl e, self, h)
            | Inr percent_b \<Rightarrow>
                (Inr percent_b, self,
                 h[bb_data self := df_set ''Percent_B'' percent_b (h ! bb_data self)])))"

text \<open>A call of one of the calculations of the object, and a sequence of calls; an
  exception ends the sequence, with the heap as the raising call left it.\<close>

datatype bb_call = Calculate_bollinger_bands "int option" "fl option"
  | Calculate_band_width | Calculate_percent_b

fun bb_do :: "talib \<Rightarrow> bb_call \<Rightarrow> bollinger_bands \<Rightarrow> heap \<Rightarrow> bool \<times> bollinger_bands \<times> heap" where
  "bb_do ta (Calculate_bollinger_bands period std_dev) self h =
     (case calculate_bollinger_bands ta period std_dev self h of
        (r, self', h') \<Rightarrow> (isl r, self', h'))"
| "bb_do ta Calculate_band_width self h =
     (case calculate_band_width ta self h of (r, self', h') \<Rightarrow> (isl r, self', h'))"
| "bb_do ta Calculate_percent_b self h =
     (case calculate_percent_b ta self h of (r, self', h') \<Rightarrow> (isl r, self', h'))"

fun bb_run :: "talib \<Rightarrow> bb_call list \<Rightarrow> bollinger_bands \<Rightarrow> heap \<Rightarrow> bollinger_bands \<times> heap" where
  "bb_run ta [] self h = (self, h)"
| "bb_run ta (c # cs) self h =
     (case bb_do ta c self h of
        (raised, self', h') \<Rightarrow> if raised then (self', h') else bb_run ta cs self' h')"

section \<open>KDJIndicator and RSIIndicator (indicators/kdj_rsi.py)\<close>

record kdj_indicator =
  kdj_data_ref :: nat
  kdj_high :: series
  kdj_low :: series
  kdj_close :: series
  kdj_data :: pydict

definition KDJIndicator_init :: "heap \<Rightarrow> nat \<Rightarrow> kdj_indicator result \<times> heap" where
  "KDJIndicator_init h data =
     (let (self_data, h') = df_copy h data
      in case bind_err (df_get (h ! data) ''High'') (\<lambda>high.
              bind_err (df_get (h ! data) ''Low'') (\<lambda>low.
              bind_err (df_get (h ! data) ''Close'') (\<lambda>close.
                Inr \<lparr> kdj_data_ref = self_data, kdj_high = high, kdj_low = low,
                      kdj_close = close, kdj_data = [] \<rparr>)))
         of Inl e \<Rightarrow> (Inl e, h') | Inr self \<Rightarrow> (Inr self, h'))"

text \<open>\<open>3 * k_values - 2 * d_values\<close> on two numpy arrays: shapes that differ do not
  broadcast (\<open>ValueError\<close>).\<close>

definition j_values_of :: "series \<Rightarrow> series \<Rightarrow> series result" where
  "j_values_of k_values d_values =
     (if length k_values \<noteq> length d_values then Inl ValueError
      else Inr (map2 (\<lambda>k d. fl_sub (fl_mul (Fin 3) k) (fl_mul (Fin 2) d)) k_values d_values))"

definition kdj_dict ::
  "talib \<Rightarrow> int \<Rightarrow> int \<Rightarrow> int \<Rightarrow> series \<Rightarrow> series \<Rightarrow> series \<Rightarrow> nat list \<Rightarrow> pydict result" where
  "kdj_dict ta fastk_period slowk_period slowd_period high low close idx =
     bind_err (tb_STOCH ta high low close fastk_period slowk_period slowd_period)
       (\<lambda>(k_values, d_values).
     bind_err (j_values_of k_values d_values) (\<lambda>j_values.
     bind_err (mk_series idx k_values) (\<lambda>k.
     bind_err (mk_series idx d_values) (\<lambda>d.
     bind_err (mk_series idx j_values) (\<lambda>j.
       Inr [(''K'', k), (''D'', d), (''J'', j)])))))"

definition calculate_kdj ::
  "talib \<Rightarrow> int option \<Rightarrow> int option \<Rightarrow> int option \<Rightarrow> kdj_indicator \<Rightarrow> heap
     \<Rightarrow> pydict result \<times> kdj_indicator \<times> heap" where
  "calculate_kdj ta fastk_period slowk_period slowd_period self h =
     (let fastk_period = default fastk_period KDJ_CONFIG_fastk_period;
          slowk_period = default slowk_period KDJ_CONFIG_slowk_period;
          slowd_period = default slowd_period KDJ_CONFIG_slowd_period
      in case kdj_dict ta fastk_period slowk_period slowd_period
                (kdj_high self) (kdj_low self) (kdj_close self)
                (df_index (h ! kdj_data_ref self))
         of Inl e \<Rightarrow> (Inl e, self, h)
          | Inr kd \<Rightarrow>
              (Inr kd, self\<lparr>kdj_data := kd\<rparr>,
               h[kdj_data_ref self := df_set_all kd (h ! kdj_data_ref self)]))"

record rsi_indicator =
  rsi_data_ref :: nat
  rsi_close :: series

definition RSIIndicator_init :: "heap \<Rightarrow> nat \<Rightarrow> rsi_indicator result \<times> heap" where
  "RSIIndicator_init h data =
     (let (self_data, h') = df_copy h data
      in case df_get (h ! data) ''Close'' of
           Inl e \<Rightarrow> (Inl e, h')
         | Inr close \<Rightarrow> (Inr \<lparr> rsi_data_ref = self_data, rsi_close = close \<rparr>, h'))"

definition calculate_rsi ::
  "talib \<Rightarrow> int option \<Rightarrow> rsi_indicator \<Rightarrow> heap \<Rightarrow> series result \<times> rsi_indicator \<times> heap" where
  "calculate_rsi ta period self h =
     (let period = default period RSI_CONFIG_period
      in case bind_err (tb_RSI ta (rsi_close self) period)
                (mk_series (df_index (h ! rsi_data_ref self)))
         of Inl e \<Rightarrow> (Inl e, self, h)
          | Inr rsi_series \<Rightarrow>
              (Inr rsi_series, self,
               h[rsi_data_ref self := df_set ''RSI'' rsi_series (h ! rsi_data_ref self)]))"

section \<open>MACDIndicator (indicators/macd.py)\<close>

record macd_indicator =
  macd_data_ref :: nat
  macd_close :: series
  macd_data :: pydict

definition MACDIndicator_init :: "heap \<Rightarrow> nat \<Rightarrow> macd_indicator result \<times> heap" where
  "MACDIndicator_init h data =
     (let (self_data, h') = df_copy h data
      in case df_get (h ! data) ''Close'' of
           Inl e \<Rightarrow> (Inl e, h')
         | Inr close \<Rightarrow>
             (Inr \<lparr> macd_data_ref = self_data, macd_close = close, macd_data = [] \<rparr>, h'))"

definition macd_dict ::
  "talib \<Rightarrow> int \<Rightarrow> int \<Rightarrow> int \<Rightarrow> series \<Rightarrow> nat list \<Rightarrow> pydict result" where
  "macd_dict ta fast_period slow_period signal_period close idx =
     bind_err (tb_MACD ta close fast_period slow_period signal_period)
       (\<lambda>(macd_line, signal_line, histogram).
     bind_err (mk_series idx macd_line) (\<lambda>macd_line.
     bind_err (mk_series idx signal_line) (\<lambda>signal_line.
     bind_err (mk_series idx histogram) (\<lambda>histogram.
       Inr [(''MACD'', macd_line), (''Signal'', signal_line), (''Histogram'', histogram)]))))"

definition calculate_macd ::
  "talib \<Rightarrow> int option \<Rightarrow> int option \<Rightarrow> int option \<Rightarrow> macd_indicator \<Rightarrow> heap
     \<Rightarrow> pydict result \<times> macd_indicator \<times> heap" where
  "calculate_macd ta fast_period slow_period signal_period self h =
     (let fast_period = default fast_period MACD_CONFIG_fast_period;
          slow_period = default slow_period MACD_CONFIG_slow_period;
          signal_period = default signal_period MACD_CONFIG_signal_period
      in case macd_dict ta fast_period slow_period signal_period (macd_close self)
                (df_index (h ! macd_data_ref self))
         of Inl e \<Rightarrow> (Inl e, self, h)
          | Inr md \<Rightarrow>
              (Inr md, self\<lparr>macd_data := md\<rparr>,
               h[macd_data_ref self := df_set_all md (h ! macd_data_ref self)]))"

section \<open>MovingAverageSystem (indicators/ma_system.py)\<close>

text \<open>\<open>str(n)\<close> of an integer, for the keys \<open>f'SMA_{period}'\<close> and \<open>f'EMA_{period}'\<close>.\<close>

definition digit_char :: "nat \<Rightarrow> char" where
  "digit_char d = ''0123456789'' ! d"

function str_nat :: "nat \<Rightarrow> string" where
  "str_nat n = (if n < 10 then [digit_char n] else str_nat (n div 10) @ [digit_char (n mod 10)])"
  by pat_completeness auto
termination
  by (relation "measure id") auto

definition str_int :: "int \<Rightarrow> string" where
  "str_int i = (if i < 0 then CHR ''-'' # str_nat (nat (- i)) else str_nat (nat i))"

record moving_average_system =
  ma_data_ref :: nat
  ma_close :: series
  ma_data :: pydict

definition MovingAverageSystem_init :: "heap \<Rightarrow> nat \<Rightarrow> moving_average_system result \<times> heap" where
  "MovingAverageSystem_init h data =
     (let (self_data, h') = df_copy h data
      in case df_get (h ! data) ''Close'' of
           Inl e \<Rightarrow> (Inl e, h')
         | Inr close \<Rightarrow>
             (Inr \<lparr> ma_data_ref = self_data, ma_close = close, ma_data = [] \<rparr>, h'))"

text \<open>
  The loop of \<open>calculate_sma\<close> and of \<open>calculate_ema\<close>: one library call per period, the
  series stored under the period's key in the dict of results; \<open>f\<close> is \<open>tb.SMA\<close> or
  \<open>tb.EMA\<close>, \<open>prefix\<close> the key's prefix.
\<close>

fun ma_loop ::
  "(series \<Rightarrow> int \<Rightarrow> series result) \<Rightarrow> string \<Rightarrow> series \<Rightarrow> nat list \<Rightarrow> int list \<Rightarrow> pydict
     \<Rightarrow> pydict result" where
  "ma_loop f prefix close idx [] results = Inr results"
| "ma_loop f prefix close idx (period # periods) results =
     bind_err (f close period) (\<lambda>values.
     bind_err (mk_series idx values) (\<lambda>s.
       ma_loop f prefix close idx periods (set_item (prefix @ str_int period) s results)))"

definition calculate_sma ::
  "talib \<Rightarrow> int list option \<Rightarrow> moving_average_system \<Rightarrow> heap
     \<Rightarrow> pydict result \<times> moving_average_system \<times> heap" where
  "calculate_sma ta periods self h =
     (ma_loop (tb_SMA ta) ''SMA_'' (ma_close self) (df_index (h ! ma_data_ref self))
        (default periods MA_PERIODS_sma) [],
      self, h)"

definition calculate_ema ::
  "talib \<Rightarrow> int list option \<Rightarrow> moving_average_system \<Rightarrow> heap
     \<Rightarrow> pydict result \<times> moving_average_system \<times> heap" where
  "calculate_ema ta periods self h =
     (ma_loop (tb_EMA ta) ''EMA_'' (ma_close self) (df_index (h ! ma_data_ref self))
        (default periods MA_PERIODS_ema) [],
      self, h)"

definition calculate_all_ma ::
  "talib \<Rightarrow> moving_average_system \<Rightarrow> heap \<Rightarrow> pydict result \<times> moving_average_system \<times> heap" where
  "calculate_all_ma ta self h =
     (case calculate_sma ta None self h of
        (Inl e, self, h) \<Rightarrow> (Inl e, self, h)
      | (Inr sma_results, self, h) \<Rightarrow>
          (let self = self\<lparr>ma_data := dict_update (ma_data self) sma_results\<rparr>
           in case calculate_ema ta None self h of
                (Inl e, self, h) \<Rightarrow> (Inl e, self, h)
              | (Inr ema_results, self, h) \<Rightarrow>
                  (let self = self\<lparr>ma_data := dict_update (ma_data self) ema_results\<rparr>
                   in (Inr (ma_data self), self,
                       h[ma_data_ref self := df_set_all (ma_data self) (h ! ma_data_ref self)]))))"

section \<open>Sequences of calculations on one object\<close>

text \<open>As for \<open>BollingerBands\<close>: any calculation of the object with any arguments, in any
  order; an exception ends the sequence.\<close>

datatype kdj_call = Calculate_kdj "int option" "int option" "int option"

fun kdj_run :: "talib \<Rightarrow> kdj_call list \<Rightarrow> kdj_indicator \<Rightarrow> heap \<Rightarrow> kdj_indicator \<times> heap" where
  "kdj_run ta [] self h = (self, h)"
| "kdj_run ta (Calculate_kdj a b c # cs) self h =
     (case calculate_kdj ta a b c self h of
        (r, self', h') \<Rightarrow> if isl r then (self', h') else kdj_run ta cs self' h')"

datatype rsi_call = Calculate_rsi "int option"

fun rsi_run :: "talib \<Rightarrow> rsi_call list \<Rightarrow> rsi_indicator \<Rightarrow> heap \<Rightarrow> rsi_indicator \<times> heap" where
  "rsi_run ta [] self h = (self, h)"
| "rsi_run ta (Calculate_rsi p # cs) self h =
     (case calculate_rsi ta p self h of
        (r, self', h') \<Rightarrow> if isl r then (self', h') else rsi_run ta cs self' h')"

datatype macd_call = Calculate_macd "int option" "int option" "int option"

fun macd_run :: "talib \<Rightarrow> macd_call list \<Rightarrow> macd_indicator \<Rightarrow> heap \<Rightarrow> macd_indicator \<times> heap" where
  "macd_run ta [] self h = (self, h)"
| "macd_run ta (Calculate_macd a b c # cs) self h =
     (case calculate_macd ta a b c self h of
        (r, self', h') \<Rightarrow> if isl r then (self', h') else macd_run ta cs self' h')"

datatype ma_call = Calculate_sma "int list option" | Calculate_ema "int list option"
  | Calculate_all_ma

fun ma_do ::
  "talib \<Rightarrow> ma_call \<Rightarrow> moving_average_system \<Rightarrow> heap \<Rightarrow> bool \<times> moving_average_system \<times> heap" where
  "ma_do ta (Calculate_sma ps) self h =
     (case calculate_sma ta ps self h of (r, self', h') \<Rightarrow> (isl r, self', h'))"
| "ma_do ta (Calculate_ema ps) self h =
     (case calculate_ema ta ps self h of (r, self', h') \<Rightarrow> (isl r, self', h'))"
| "ma_do ta Calculate_all_ma self h =
     (case calculate_all_ma ta self h of (r, self', h') \<Rightarrow> (isl r, self', h'))"

fun ma_run ::
  "talib \<Rightarrow> ma_call list \<Rightarrow> moving_average_system \<Rightarrow> heap \<Rightarrow> moving_average_system \<times> heap" where
  "ma_run ta [] self h = (self, h)"
| "ma_run ta (c # cs) self h =
     (case ma_do ta c self h of
        (raised, self', h') \<Rightarrow> if raised then (self', h') else ma_run ta cs self' h')"

section \<open>Frame conditions and sample data\<close>

text \<open>\<open>only_at a h h'\<close>: the heap \<open>h'\<close> differs from \<open>h\<close> at most at the reference \<open>a\<close>.
  \<open>frames_kept h h'\<close>: every frame of \<open>h\<close> is still there in \<open>h'\<close>, unchanged.\<close>

definition only_at :: "nat \<Rightarrow> heap \<Rightarrow> heap \<Rightarrow> bool" where
  "only_at a h h' \<longleftrightarrow> length h' = length h \<and> (\<forall>b. b \<noteq> a \<longrightarrow> h' ! b = h ! b)"

definition frames_kept :: "heap \<Rightarrow> heap \<Rightarrow> bool" where
  "frames_kept h h' \<longleftrightarrow> length h \<le> length h' \<and> (\<forall>b < length h. h' ! b = h ! b)"

text \<open>A stand-in for the library, to run the calculators on concrete data: every
  function returns the close prices it was given, once per output array.\<close>

definition echo_talib :: talib where
  "echo_talib = \<lparr> tb_SMA = (\<lambda>c _. Inr c), tb_EMA = (\<lambda>c _. Inr c),
                  tb_BBANDS = (\<lambda>c _ _ _. Inr (c, c, c)),
                  tb_STOCH = (\<lambda>_ _ c _ _ _. Inr (c, c)),
                  tb_RSI = (\<lambda>c _. Inr c), tb_MACD = (\<lambda>c _ _ _. Inr (c, c, c)) \<rparr>"

text \<open>A two-bar frame and the fresh objects over a copy of it at reference 1.\<close>

definition df0 :: dataframe where
  "df0 = \<lparr> df_index = [0, 1],
           df_columns = [(''High'', [Fin 2, Fin 4]), (''Low'', [Fin 1, Fin 2]),
                         (''Close'', [Fin 1, Fin 3])] \<rparr>"

definition bb0 :: bollinger_bands where
  "bb0 = \<lparr> bb_data = 1, bb_close = [Fin 1, Fin 3], bollinger_data = [] \<rparr>"

definition kdj0 :: kdj_indicator where
  "kdj0 = \<lparr> kdj_data_ref = 1, kdj_high = [Fin 2, Fin 4], kdj_low = [Fin 1, Fin 2],
             kdj_close = [Fin 1, Fin 3], kdj_data = [] \<rparr>"

definition rsi0 :: rsi_indicator where
  "rsi0 = \<lparr> rsi_data_ref = 1, rsi_close = [Fin 1, Fin 3] \<rparr>"

definition macd0 :: macd_indicator where
  "macd0 = \<lparr> macd_data_ref = 1, macd_close = [Fin 1, Fin 3], macd_data = [] \<rparr>"

definition ma0 :: moving_average_system where
  "ma0 = \<lparr> ma_data_ref = 1, ma_close = [Fin 1, Fin 3], ma_data = [] \<rparr>"







section \<open>Properties of the crossing detector\<close>

lemma length_shift1 [simp]: "length (shift1 xs) = length xs"
  by (cases xs) simp_all

lemma shift1_nth:
  assumes i: "i < length xs"
  shows "shift1 xs ! i = (if i = 0 then NaN else xs ! (i - 1))"
proof (cases xs)
  case Nil
  then show ?thesis using i by simp
next
  case (Cons y ys)
  show ?thesis
  proof (cases i)
    case 0
    then show ?thesis using Cons by simp
  next
    case (Suc n)
    then have "n < length (butlast (y # ys))"
      using i Cons by (simp del: butlast.simps)
    then have "butlast (y # ys) ! n = (y # ys) ! n" by (rule nth_butlast)
    then show ?thesis using Cons Suc by (simp del: butlast.simps)
  qed
qed

lemma fl_lt_NaN_right [simp]: "fl_lt x NaN = False"
  by (cases x) simp_all

lemma fl_le_NaN_right [simp]: "fl_le x NaN = False"
  by (cases x) simp_all

lemma fl_lt_not_le: "fl_lt x y \<Longrightarrow> \<not> fl_le y x"
  by (cases x; cases y) simp_all

lemma fl_lt_asym: "fl_lt x y \<Longrightarrow> \<not> fl_lt y x"
  by (cases x; cases y) simp_all

lemma golden_nth:
  assumes "length fast = length slow" and "i < length fast"
  shows "series_and (series_gt fast slow) (series_le (shift1 fast) (shift1 slow)) ! i
         = (0 < i \<and> fl_lt (slow ! i) (fast ! i) \<and> fl_le (fast ! (i - 1)) (slow ! (i - 1)))"
  using assms by (auto simp: series_and_def series_gt_def series_le_def shift1_nth)

lemma death_nth:
  assumes "length fast = length slow" and "i < length fast"
  shows "series_and (series_lt fast slow) (series_ge (shift1 fast) (shift1 slow)) ! i
         = (0 < i \<and> fl_lt (fast ! i) (slow ! i) \<and> fl_le (slow ! (i - 1)) (fast ! (i - 1)))"
  using assms by (auto simp: series_and_def series_lt_def series_ge_def shift1_nth)

lemma cross_lengths:
  "length fast = length slow \<Longrightarrow>
   length (series_and (series_gt fast slow) (series_le (shift1 fast) (shift1 slow))) = length fast
   \<and> length (series_and (series_lt fast slow) (series_ge (shift1 fast) (shift1 slow))) = length fast"
  by (simp add: series_and_def series_gt_def series_le_def series_lt_def series_ge_def)

text \<open>
  C1. For equal-length series the detector returns two boolean series of the same length;
  \<open>golden[i]\<close> is true exactly when \<open>fast[i] > slow[i]\<close> and \<open>fast[i-1] <= slow[i-1]\<close>,
  \<open>death[i]\<close> exactly when \<open>fast[i] < slow[i]\<close> and \<open>fast[i-1] >= slow[i-1]\<close>; both are false
  at index 0, and a NaN in either input at index \<open>i\<close> or \<open>i-1\<close> makes position \<open>i\<close> false
  in both.
\<close>

theorem C1_detect_crossing:
  assumes "length fast = length slow"
  shows "\<exists>golden death.
           identify_cross_signals fast slow = Inr (golden, death)
         \<and> length golden = length fast \<and> length death = length fast
         \<and> (\<forall>i < length fast.
               golden ! i = (0 < i \<and> fl_lt (slow ! i) (fast ! i)
                                   \<and> fl_le (fast ! (i - 1)) (slow ! (i - 1)))
             \<and> death ! i = (0 < i \<and> fl_lt (fast ! i) (slow ! i)
                                  \<and> fl_le (slow ! (i - 1)) (fast ! (i - 1))))
         \<and> (fast \<noteq> [] \<longrightarrow> \<not> golden ! 0 \<and> \<not> death ! 0)
         \<and> (\<forall>i < length fast.
               (fast ! i = NaN \<or> slow ! i = NaN \<or> fast ! (i - 1) = NaN \<or> slow ! (i - 1) = NaN)
               \<longrightarrow> \<not> golden ! i \<and> \<not> death ! i)"
proof -
  let ?g = "series_and (series_gt fast slow) (series_le (shift1 fast) (shift1 slow))"
  let ?d = "series_and (series_lt fast slow) (series_ge (shift1 fast) (shift1 slow))"
  have ret: "identify_cross_signals fast slow = Inr (?g, ?d)"
    using assms by (simp add: identify_cross_signals_def)
  have len: "length ?g = length fast" "length ?d = length fast"
    using cross_lengths [OF assms] by simp_all
  have pt: "\<forall>i < length fast.
               ?g ! i = (0 < i \<and> fl_lt (slow ! i) (fast ! i)
                               \<and> fl_le (fast ! (i - 1)) (slow ! (i - 1)))
             \<and> ?d ! i = (0 < i \<and> fl_lt (fast ! i) (slow ! i)
                              \<and> fl_le (slow ! (i - 1)) (fast ! (i - 1)))"
    using golden_nth [OF assms] death_nth [OF assms] by simp
  have zero: "fast \<noteq> [] \<longrightarrow> \<not> ?g ! 0 \<and> \<not> ?d ! 0"
    using pt by auto
  have nan: "\<forall>i < length fast.
               (fast ! i = NaN \<or> slow ! i = NaN \<or> fast ! (i - 1) = NaN \<or> slow ! (i - 1) = NaN)
               \<longrightarrow> \<not> ?g ! i \<and> \<not> ?d ! i"
    using pt by auto
  from ret len pt zero nan show ?thesis by blast
qed

theorem C1_detect_crossing_witness:
  "length [Fin 1, Fin 3, NaN, Fin 1] = length [Fin 2, Fin 2, Fin 2, Fin 2]
   \<and> identify_cross_signals [Fin 1, Fin 3, NaN, Fin 1] [Fin 2, Fin 2, Fin 2, Fin 2]
       = Inr ([False, True, False, False], [False, False, False, False])"
  using C1_detect_crossing [of "[Fin 1, Fin 3, NaN, Fin 1]" "[Fin 2, Fin 2, Fin 2, Fin 2]"]
  by (simp add: identify_cross_signals_def series_and_def series_gt_def series_le_def
      series_lt_def series_ge_def)

text \<open>
  C2. For equal-length series, NaN included, no index carries a golden cross and a death
  cross at once, and index 0 carries neither.
\<close>

theorem C2_cross_exclusive:
  assumes "length fast = length slow"
    and "identify_cross_signals fast slow = Inr (golden, death)"
    and "i < length fast"
  shows "\<not> (golden ! i \<and> death ! i) \<and> (i = 0 \<longrightarrow> \<not> golden ! i \<and> \<not> death ! i)"
proof -
  have g: "golden = series_and (series_gt fast slow) (series_le (shift1 fast) (shift1 slow))"
    and d: "death = series_and (series_lt fast slow) (series_ge (shift1 fast) (shift1 slow))"
    using assms(1,2) by (simp_all add: identify_cross_signals_def)
  have gi: "golden ! i = (0 < i \<and> fl_lt (slow ! i) (fast ! i)
                                \<and> fl_le (fast ! (i - 1)) (slow ! (i - 1)))"
    unfolding g using golden_nth [OF assms(1,3)] .
  have di: "death ! i = (0 < i \<and> fl_lt (fast ! i) (slow ! i)
                               \<and> fl_le (slow ! (i - 1)) (fast ! (i - 1)))"
    unfolding d using death_nth [OF assms(1,3)] .
  show ?thesis
    using gi di fl_lt_asym [of "slow ! i" "fast ! i"] by auto
qed

theorem C2_cross_exclusive_witness:
  "\<not> ([False, True, False] ! 1 \<and> [False, False, False] ! 1)
   \<and> identify_cross_signals [Fin 1, Fin 3, NaN] [Fin 2, Fin 2, Fin 2]
       = Inr ([False, True, False], [False, False, False])"
proof -
  have r: "identify_cross_signals [Fin 1, Fin 3, NaN] [Fin 2, Fin 2, Fin 2]
             = Inr ([False, True, False], [False, False, False])"
    by (simp add: identify_cross_signals_def series_and_def series_gt_def series_le_def
        series_lt_def series_ge_def)
  have l: "length [Fin 1, Fin 3, NaN] = length [Fin 2, Fin 2, Fin 2]" by simp
  have i: "(1::nat) < length [Fin 1, Fin 3, NaN]" by simp
  show ?thesis using C2_cross_exclusive [OF l r i] r by simp
qed

section \<open>Properties of the forward-return analysis\<close>

lemma signal_return_nonneg:
  assumes "0 \<le> h"
  shows "signal_return closes h i =
           (if i + nat h < length closes
            then Some (fl_div (fl_sub (closes ! (i + nat h)) (closes ! i)) (closes ! i))
            else None)"
proof (cases "i + nat h < length closes")
  case True
  then have "i < length closes" by simp
  moreover have "int i + h < int (length closes)" using True assms by linarith
  moreover have "nat (int i + h) = i + nat h" using assms by (simp add: nat_add_distrib)
  ultimately show ?thesis using True assms
    by (simp add: signal_return_def iloc_def Let_def)
next
  case False
  then have "length closes \<le> i \<or> \<not> int i + h < int (length closes)"
    using assms by linarith
  then show ?thesis using False by (auto simp: signal_return_def)
qed

lemma map_filter_filter_if:
  assumes "\<And>x. f x = (if Q x then Some (g x) else None)"
  shows "List.map_filter f (filter P xs) = map g (filter (\<lambda>x. P x \<and> Q x) xs)"
  by (induction xs) (simp_all add: List.map_filter_simps assms)

lemma returns_list_nonneg:
  assumes "0 \<le> h"
  shows "returns_list closes signal h =
           map (\<lambda>i. fl_div (fl_sub (closes ! (i + nat h)) (closes ! i)) (closes ! i))
             (filter (\<lambda>i. signal ! i \<and> i + nat h < length closes) [0..<length signal])"
  unfolding returns_list_def signal_points_def
  by (rule map_filter_filter_if) (rule signal_return_nonneg [OF assms])


lemma returns_list_empty_iff:
  assumes "0 \<le> h"
  shows "returns_list closes signal h = [] \<longleftrightarrow>
           (\<forall>i < length signal. signal ! i \<longrightarrow> \<not> i + nat h < length closes)"
  unfolding returns_list_nonneg [OF assms] by (auto simp: filter_empty_conv)

lemma fold_fl_add_Fin:
  "fold (\<lambda>x acc. fl_add acc x) (map Fin rs) (Fin a) = Fin (a + sum_list rs)"
  by (induction rs arbitrary: a) (simp_all add: add.assoc)

lemma np_mean_Fin:
  "rs \<noteq> [] \<Longrightarrow> np_mean (map Fin rs) = Fin (sum_list rs / real (length rs))"
  by (simp add: np_mean_def fold_fl_add_Fin)

lemma fold_fl_max_Fin:
  "fold (\<lambda>y acc. fl_max acc y) (map Fin rs) (Fin a) = Fin (fold max rs a)"
  by (induction rs arbitrary: a) (simp_all add: fl_max_def max_def)

lemma fold_fl_min_Fin:
  "fold (\<lambda>y acc. fl_min acc y) (map Fin rs) (Fin a) = Fin (fold min rs a)"
  by (induction rs arbitrary: a) (simp_all add: fl_min_def min_def)

lemma np_max_Fin: "rs \<noteq> [] \<Longrightarrow> np_max (map Fin rs) = Inr (Fin (Max (set rs)))"
  by (cases rs) (simp_all add: fold_fl_max_Fin Max.set_eq_fold del: set_simps)

lemma np_min_Fin: "rs \<noteq> [] \<Longrightarrow> np_min (map Fin rs) = Inr (Fin (Min (set rs)))"
  by (cases rs) (simp_all add: fold_fl_min_Fin Min.set_eq_fold del: set_simps)

lemma positive_Fin:
  "filter (\<lambda>r. fl_lt (Fin 0) r) (map Fin rs) = map Fin (filter (\<lambda>r. 0 < r) rs)"
  by (induction rs) simp_all

lemma signal_stats_finite:
  assumes "returns_list closes signal h = map Fin rs" and "rs \<noteq> []"
  shows "calculate_signal_returns closes signal h =
           \<lparr> signal_count = length rs,
             avg_return = Fin (sum_list rs / real (length rs) * 100),
             win_rate = Fin (real (length (filter (\<lambda>r. 0 < r) rs)) / real (length rs) * 100),
             max_return = Fin (Max (set rs) * 100),
             min_return = Fin (Min (set rs) * 100),
             total_trades = length (signal_points signal) \<rparr>"
  using assms
  by (simp add: calculate_signal_returns_def Let_def np_mean_Fin np_max_Fin np_min_Fin
      positive_Fin)

lemma finite_return:
  assumes "closes = map Fin cs" and "\<forall>c \<in> set cs. c \<noteq> 0" and "i + n < length cs"
  shows "fl_div (fl_sub (closes ! (i + n)) (closes ! i)) (closes ! i)
           = Fin ((cs ! (i + n) - cs ! i) / cs ! i)"
proof -
  have "i < length cs" using assms(3) by simp
  then have "cs ! i \<noteq> 0" using assms(2) by simp
  then show ?thesis using assms(1,3) \<open>i < length cs\<close> by (simp add: fl_sub_def)
qed

text \<open>
  C3. For a holding horizon \<open>h\<close> (a non-negative number of bars), the signal at bar \<open>i\<close>
  contributes to the aggregate exactly when \<open>i + h < L\<close>, with the return
  \<open>(close[i+h] - close[i]) / close[i]\<close>; the signal count is the number of such signals;
  when no signal qualifies, every aggregate statistic is 0 (\<open>total_trades\<close> still counts the
  signals fired); in a 10-bar series with \<open>h = 5\<close> a lone signal at bar 9 aggregates
  nothing; and when some signal qualifies, over finite non-zero closes, the average
  return, the win rate and the largest and smallest return reported are those of exactly
  these returns, in percent.
\<close>

theorem C3_forward_returns:
  assumes "0 \<le> h"
  shows "returns_list closes signal h =
           map (\<lambda>i. fl_div (fl_sub (closes ! (i + nat h)) (closes ! i)) (closes ! i))
             (filter (\<lambda>i. signal ! i \<and> i + nat h < length closes) [0..<length signal])
       \<and> signal_count (calculate_signal_returns closes signal h) =
           length (filter (\<lambda>i. signal ! i \<and> i + nat h < length closes) [0..<length signal])
       \<and> ((\<forall>i < length signal. signal ! i \<longrightarrow> \<not> i + nat h < length closes) \<longrightarrow>
            calculate_signal_returns closes signal h =
              \<lparr> signal_count = 0, avg_return = Fin 0, win_rate = Fin 0,
                max_return = Fin 0, min_return = Fin 0,
                total_trades = length (signal_points signal) \<rparr>)
       \<and> (length closes = 10 \<and> h = 5 \<and> signal = replicate 9 False @ [True] \<longrightarrow>
            calculate_signal_returns closes signal h =
              \<lparr> signal_count = 0, avg_return = Fin 0, win_rate = Fin 0,
                max_return = Fin 0, min_return = Fin 0, total_trades = 1 \<rparr>)
       \<and> (\<forall>cs rs. closes = map Fin cs \<and> (\<forall>c \<in> set cs. c \<noteq> 0)
              \<and> rs = map (\<lambda>i. (cs ! (i + nat h) - cs ! i) / cs ! i)
                        (filter (\<lambda>i. signal ! i \<and> i + nat h < length cs) [0..<length signal])
              \<and> rs \<noteq> [] \<longrightarrow>
            calculate_signal_returns closes signal h =
              \<lparr> signal_count = length rs,
                avg_return = Fin (sum_list rs / real (length rs) * 100),
                win_rate = Fin (real (length (filter (\<lambda>r. 0 < r) rs)) / real (length rs) * 100),
                max_return = Fin (Max (set rs) * 100),
                min_return = Fin (Min (set rs) * 100),
                total_trades = length (signal_points signal) \<rparr>)"
proof -
  let ?q = "filter (\<lambda>i. signal ! i \<and> i + nat h < length closes) [0..<length signal]"
  have a: "returns_list closes signal h =
             map (\<lambda>i. fl_div (fl_sub (closes ! (i + nat h)) (closes ! i)) (closes ! i)) ?q"
    by (rule returns_list_nonneg [OF assms])
  have b: "signal_count (calculate_signal_returns closes signal h) = length ?q"
    by (simp add: calculate_signal_returns_def Let_def a)
  have c: "(\<forall>i < length signal. signal ! i \<longrightarrow> \<not> i + nat h < length closes) \<longrightarrow>
            calculate_signal_returns closes signal h =
              \<lparr> signal_count = 0, avg_return = Fin 0, win_rate = Fin 0,
                max_return = Fin 0, min_return = Fin 0,
                total_trades = length (signal_points signal) \<rparr>"
  proof
    assume "\<forall>i < length signal. signal ! i \<longrightarrow> \<not> i + nat h < length closes"
    then have "returns_list closes signal h = []"
      using returns_list_empty_iff [OF assms] by blast
    then show "calculate_signal_returns closes signal h =
              \<lparr> signal_count = 0, avg_return = Fin 0, win_rate = Fin 0,
                max_return = Fin 0, min_return = Fin 0,
                total_trades = length (signal_points signal) \<rparr>"
      by (simp add: calculate_signal_returns_def)
  qed
  have d: "length closes = 10 \<and> h = 5 \<and> signal = replicate 9 False @ [True] \<longrightarrow>
            calculate_signal_returns closes signal h =
              \<lparr> signal_count = 0, avg_return = Fin 0, win_rate = Fin 0,
                max_return = Fin 0, min_return = Fin 0, total_trades = 1 \<rparr>"
  proof
    assume h: "length closes = 10 \<and> h = 5 \<and> signal = replicate 9 False @ [True]"
    then have sig: "\<And>i. i < length signal \<Longrightarrow> signal ! i \<longleftrightarrow> i = 9"
      by (auto simp: nth_append)
    have len: "length signal = 10" using h by simp
    have "\<forall>i < length signal. signal ! i \<longrightarrow> \<not> i + nat h < length closes"
      using sig h by auto
    moreover have "signal_points signal = [9]"
    proof -
      have "filter (\<lambda>i. signal ! i) [0..<10] = filter (\<lambda>i. i = 9) [0..<10]"
        using sig len by (intro filter_cong) auto
      also have "\<dots> = [9]" by (simp add: upt_rec)
      finally show ?thesis by (simp add: signal_points_def len)
    qed
    ultimately show "calculate_signal_returns closes signal h =
              \<lparr> signal_count = 0, avg_return = Fin 0, win_rate = Fin 0,
                max_return = Fin 0, min_return = Fin 0, total_trades = 1 \<rparr>"
      using c by simp
  qed
  have e: "\<forall>cs rs. closes = map Fin cs \<and> (\<forall>c \<in> set cs. c \<noteq> 0)
              \<and> rs = map (\<lambda>i. (cs ! (i + nat h) - cs ! i) / cs ! i)
                        (filter (\<lambda>i. signal ! i \<and> i + nat h < length cs) [0..<length signal])
              \<and> rs \<noteq> [] \<longrightarrow>
            calculate_signal_returns closes signal h =
              \<lparr> signal_count = length rs,
                avg_return = Fin (sum_list rs / real (length rs) * 100),
                win_rate = Fin (real (length (filter (\<lambda>r. 0 < r) rs)) / real (length rs) * 100),
                max_return = Fin (Max (set rs) * 100),
                min_return = Fin (Min (set rs) * 100),
                total_trades = length (signal_points signal) \<rparr>"
  proof (intro allI impI, elim conjE)
    fix cs rs
    assume cl: "closes = map Fin cs" and nz: "\<forall>c \<in> set cs. c \<noteq> 0"
      and rs: "rs = map (\<lambda>i. (cs ! (i + nat h) - cs ! i) / cs ! i)
                     (filter (\<lambda>i. signal ! i \<and> i + nat h < length cs) [0..<length signal])"
      and ne: "rs \<noteq> []"
    have len: "length closes = length cs" using cl by simp
    have "returns_list closes signal h = map Fin rs"
      unfolding a rs len map_map
      by (rule map_cong [OF refl]) (simp add: finite_return [OF cl nz])
    then show "calculate_signal_returns closes signal h =
              \<lparr> signal_count = length rs,
                avg_return = Fin (sum_list rs / real (length rs) * 100),
                win_rate = Fin (real (length (filter (\<lambda>r. 0 < r) rs)) / real (length rs) * 100),
                max_return = Fin (Max (set rs) * 100),
                min_return = Fin (Min (set rs) * 100),
                total_trades = length (signal_points signal) \<rparr>"
      using ne by (rule signal_stats_finite)
  qed
  from a b c d e show ?thesis by blast
qed

theorem C3_forward_returns_witness:
  "(0::int) \<le> 1
   \<and> returns_list [Fin 1, Fin 2, Fin 4, Fin 2] [True, True, False, True] 1 = [Fin 1, Fin 1]
   \<and> signal_count (calculate_signal_returns [Fin 1, Fin 2, Fin 4, Fin 2]
                      [True, True, False, True] 1) = 2
   \<and> (0::int) \<le> 5
   \<and> calculate_signal_returns (map (\<lambda>n. Fin (real n)) [10..<20])
         (replicate 9 False @ [True]) 5 =
         \<lparr> signal_count = 0, avg_return = Fin 0, win_rate = Fin 0,
           max_return = Fin 0, min_return = Fin 0, total_trades = 1 \<rparr>
   \<and> calculate_signal_returns (map Fin [1, 2, 3, 2, 1]) [True, True, True, True, True] 1 =
         \<lparr> signal_count = 4, avg_return = Fin (50 / 3), win_rate = Fin 50,
           max_return = Fin 100, min_return = Fin (- 50), total_trades = 5 \<rparr>"
proof -
  have h: "(0::int) \<le> 1" by simp
  have f: "filter (\<lambda>i. [True, True, False, True] ! i
                       \<and> i + nat 1 < length [Fin 1, Fin 2, Fin 4, Fin 2])
             [0..<length [True, True, False, True]] = [0, 1]"
    by (simp add: upt_rec)
  have a: "returns_list [Fin 1, Fin 2, Fin 4, Fin 2] [True, True, False, True] 1 = [Fin 1, Fin 1]
     \<and> signal_count (calculate_signal_returns [Fin 1, Fin 2, Fin 4, Fin 2]
                      [True, True, False, True] 1) = 2"
    using C3_forward_returns [OF h, of "[Fin 1, Fin 2, Fin 4, Fin 2]" "[True, True, False, True]"]
    unfolding f by (simp add: fl_sub_def)
  have h5: "(0::int) \<le> 5" by simp
  have b: "calculate_signal_returns (map (\<lambda>n. Fin (real n)) [10..<20])
         (replicate 9 False @ [True]) 5 =
         \<lparr> signal_count = 0, avg_return = Fin 0, win_rate = Fin 0,
           max_return = Fin 0, min_return = Fin 0, total_trades = 1 \<rparr>"
    using C3_forward_returns [OF h5, of "map (\<lambda>n. Fin (real n)) [10..<20]"
        "replicate 9 False @ [True]"]
    by simp
  have g: "map (\<lambda>i. ([1, 2, 3, 2, 1 :: real] ! (i + nat 1) - [1, 2, 3, 2, 1] ! i)
                       / [1, 2, 3, 2, 1] ! i)
             (filter (\<lambda>i. [True, True, True, True, True] ! i
                           \<and> i + nat 1 < length [1, 2, 3, 2, 1 :: real])
                [0..<length [True, True, True, True, True]])
           = [1, 1/2, - 1/3, - 1/2]"
    by (simp add: upt_rec)
  have p: "signal_points [True, True, True, True, True] = [0, 1, 2, 3, 4]"
    by (simp add: signal_points_def upt_rec)
  note e = C3_forward_returns [OF h, of "map Fin [1, 2, 3, 2, 1]"
      "[True, True, True, True, True]", THEN conjunct2, THEN conjunct2, THEN conjunct2,
      THEN conjunct2, rule_format, of "[1, 2, 3, 2, 1]" "[1, 1/2, - 1/3, - 1/2]"]
  have nz: "\<forall>c \<in> set [1, 2, 3, 2, 1 :: real]. c \<noteq> 0" by simp
  have "calculate_signal_returns (map Fin [1, 2, 3, 2, 1]) [True, True, True, True, True] 1 =
         \<lparr> signal_count = length [1, 1/2, - 1/3, - 1/2 :: real],
           avg_return = Fin (sum_list [1, 1/2, - 1/3, - 1/2] / real (length [1, 1/2, - 1/3, - 1/2 :: real]) * 100),
           win_rate = Fin (real (length (filter (\<lambda>r. 0 < r) [1, 1/2, - 1/3, - 1/2 :: real]))
                            / real (length [1, 1/2, - 1/3, - 1/2 :: real]) * 100),
           max_return = Fin (Max (set [1, 1/2, - 1/3, - 1/2]) * 100),
           min_return = Fin (Min (set [1, 1/2, - 1/3, - 1/2]) * 100),
           total_trades = length (signal_points [True, True, True, True, True]) \<rparr>"
    by (rule e) (intro conjI refl nz g [symmetric], simp)
  then have c: "calculate_signal_returns (map Fin [1, 2, 3, 2, 1])
                  [True, True, True, True, True] 1 =
         \<lparr> signal_count = 4, avg_return = Fin (50 / 3), win_rate = Fin 50,
           max_return = Fin 100, min_return = Fin (- 50), total_trades = 5 \<rparr>"
    by (simp add: p)
  from h a h5 b c show ?thesis by simp
qed

section \<open>Properties of the modelled RSI\<close>

lemma length_gains [simp]: "length (gains xs) = length xs - 1"
  by (induction xs rule: gains.induct) simp_all

lemma length_losses [simp]: "length (losses xs) = length xs - 1"
  by (induction xs rule: losses.induct) simp_all





lemma length_wilder_from [simp]: "length (wilder_from p a xs) = length xs"
  by (induction xs arbitrary: a) simp_all










section \<open>Properties of the max drawdown\<close>









lemma length_cumprod_from [simp]: "length (cumprod_from a xs) = length xs"
  by (induction xs arbitrary: a) simp_all

lemma length_expanding_from [simp]: "length (expanding_from m xs) = length xs"
  by (induction xs arbitrary: m) simp_all











section \<open>Properties of data loading\<close>

lemma drop_duplicates_seen_sample:
  "\<forall>v \<in> set seen. \<forall>i \<in> set is. v \<noteq> bar_values (sample_bar i) \<Longrightarrow> distinct is \<Longrightarrow>
     drop_duplicates_seen seen (map sample_bar is) = map sample_bar is"
proof (induction "is" arbitrary: seen)
  case Nil
  show ?case by simp
next
  case (Cons i "is")
  have "bar_values (sample_bar i) \<notin> set seen" using Cons.prems(1) by auto
  moreover have "\<forall>v \<in> set (bar_values (sample_bar i) # seen). \<forall>j \<in> set is.
                   v \<noteq> bar_values (sample_bar j)"
    using Cons.prems by (auto simp: bar_values_def sample_bar_def)
  ultimately show ?case using Cons.IH [of "bar_values (sample_bar i) # seen"] Cons.prems(2)
    by simp
qed

lemma clean_sample: "clean_stock_data (map sample_bar [0..<n]) = map sample_bar [0..<n]"
proof -
  have d: "dropna (map sample_bar [0..<n]) = map sample_bar [0..<n]"
    by (simp add: dropna_def bar_values_def sample_bar_def filter_map o_def)
  have u: "drop_duplicates (map sample_bar [0..<n]) = map sample_bar [0..<n]"
    unfolding drop_duplicates_def by (rule drop_duplicates_seen_sample) simp_all
  have r: "replace_inf (map sample_bar [0..<n]) = map sample_bar [0..<n]"
    by (simp add: replace_inf_def sample_bar_def inf_to_nan_def)
  show ?thesis by (simp add: clean_stock_data_def d u r)
qed

lemma sort_sample: "sort_key trade_date (map sample_bar [0..<n]) = map sample_bar [0..<n]"
proof -
  have "map trade_date (map sample_bar [0..<n]) = [0..<n]"
    by (simp add: sample_bar_def o_def map_idI)
  then have "sorted (map trade_date (map sample_bar [0..<n]))" by simp
  then show ?thesis by (rule sort_key_id_if_sorted)
qed

text \<open>
  C7. When the cleaned series has fewer than 30 bars, \<open>_preprocess_data\<close> raises
  \<open>ValueError\<close> and so does \<open>get_daily_data\<close>: no series reaches the caller. When it has 30
  bars or more, both return the cleaned series.
\<close>

theorem C7_minimum_bars:
  "(length (clean_stock_data (sort_key trade_date df)) < 30 \<longrightarrow>
      preprocess_data df = Inl ValueError \<and> get_daily_data (Inr df) = Inl ValueError)
 \<and> (30 \<le> length (clean_stock_data (sort_key trade_date df)) \<longrightarrow>
      preprocess_data df = Inr (clean_stock_data (sort_key trade_date df))
      \<and> get_daily_data (Inr df) = Inr (clean_stock_data (sort_key trade_date df)))"
proof (intro conjI impI)
  assume "length (clean_stock_data (sort_key trade_date df)) < 30"
  then show "preprocess_data df = Inl ValueError"
    by (simp add: preprocess_data_def)
  then show "get_daily_data (Inr df) = Inl ValueError"
    by (simp add: get_daily_data_def)
next
  assume a: "30 \<le> length (clean_stock_data (sort_key trade_date df))"
  then show p: "preprocess_data df = Inr (clean_stock_data (sort_key trade_date df))"
    by (simp add: preprocess_data_def)
  have "df \<noteq> []"
  proof
    assume "df = []"
    then have "clean_stock_data (sort_key trade_date df) = []"
      by (simp add: clean_stock_data_def dropna_def drop_duplicates_def replace_inf_def)
    with a show False by simp
  qed
  with p show "get_daily_data (Inr df) = Inr (clean_stock_data (sort_key trade_date df))"
    by (simp add: get_daily_data_def)
qed

theorem C7_minimum_bars_witness:
  "length (clean_stock_data (sort_key trade_date (map sample_bar [0..<29]))) < 30
   \<and> get_daily_data (Inr (map sample_bar [0..<29])) = Inl ValueError
   \<and> 30 \<le> length (clean_stock_data (sort_key trade_date (map sample_bar [0..<30])))
   \<and> get_daily_data (Inr (map sample_bar [0..<30])) = Inr (map sample_bar [0..<30])"
proof -
  have a: "length (clean_stock_data (sort_key trade_date (map sample_bar [0..<29]))) < 30"
    by (simp add: sort_sample clean_sample)
  have b: "30 \<le> length (clean_stock_data (sort_key trade_date (map sample_bar [0..<30])))"
    by (simp add: sort_sample clean_sample)
  have c: "clean_stock_data (sort_key trade_date (map sample_bar [0..<30]))
             = map sample_bar [0..<30]"
    by (simp add: sort_sample clean_sample)
  show ?thesis
    using C7_minimum_bars [of "map sample_bar [0..<29]"]
      C7_minimum_bars [of "map sample_bar [0..<30]"] a b c
    by simp
qed

section \<open>Properties of the squeeze loop\<close>

lemma run_at_snoc_old:
  "e < length xs \<Longrightarrow> run_at (xs @ [x]) s e = run_at xs s e"
  by (auto simp: run_at_def nth_append)

lemma run_at_start_unique:
  assumes "run_at c s e" and "run_at c s' e"
  shows "s = s'"
proof (rule ccontr)
  assume ne: "s \<noteq> s'"
  { fix a b assume ab: "run_at c a e" "run_at c b e" "a < b"
    then have "b \<noteq> 0" "\<not> c ! (b - 1)" by (auto simp: run_at_def)
    moreover have "b - 1 \<in> {a..e}" using ab by (auto simp: run_at_def)
    ultimately have False using ab(1) by (auto simp: run_at_def) }
  then show False using assms ne by (metis nat_neq_iff)
qed

lemma completed_run_snoc:
  "completed_run (xs @ [x]) s e \<longleftrightarrow>
     completed_run xs s e \<or> (run_at xs s e \<and> Suc e = length xs \<and> \<not> x)"
proof (cases "Suc e < length xs")
  case True
  then show ?thesis
    by (simp add: completed_run_def run_at_snoc_old nth_append)
next
  case False
  show ?thesis
  proof (cases "Suc e = length xs")
    case True
    then show ?thesis
      by (simp add: completed_run_def run_at_snoc_old nth_append)
  next
    case False
    with \<open>\<not> Suc e < length xs\<close> have "length xs < Suc e" by simp
    then show ?thesis by (auto simp: completed_run_def)
  qed
qed

lemma run_at_extend:
  assumes "run_at xs s (length xs - 1)" and "x"
  shows "run_at (xs @ [x]) s (length (xs @ [x]) - 1)"
proof -
  from assms(1) have s: "s \<le> length xs - 1" "length xs - 1 < length xs"
    and a: "\<forall>k \<in> {s..length xs - 1}. xs ! k" and b: "s = 0 \<or> \<not> xs ! (s - 1)"
    by (auto simp: run_at_def)
  have "\<forall>k \<in> {s..length xs}. (xs @ [x]) ! k"
  proof
    fix k assume "k \<in> {s..length xs}"
    then show "(xs @ [x]) ! k" using a assms(2) s
      by (cases "k = length xs") (auto simp: nth_append)
  qed
  moreover have "s = 0 \<or> \<not> (xs @ [x]) ! (s - 1)"
    using b s by (auto simp: nth_append)
  ultimately show ?thesis using s by (simp add: run_at_def)
qed

lemma run_at_fresh:
  assumes "xs = [] \<or> \<not> last xs" and "x"
  shows "run_at (xs @ [x]) (length xs) (length (xs @ [x]) - 1)"
proof -
  have "length xs = 0 \<or> \<not> (xs @ [x]) ! (length xs - 1)"
  proof (cases "xs = []")
    case True
    then show ?thesis by simp
  next
    case False
    with assms(1) have "\<not> xs ! (length xs - 1)" by (simp add: last_conv_nth)
    moreover have "length xs - 1 < length xs" using False by simp
    ultimately show ?thesis by (simp add: nth_append)
  qed
  then show ?thesis using assms(2) by (simp add: run_at_def)
qed

lemma run_at_last:
  assumes "run_at c s e" and "Suc e = length c"
  shows "c \<noteq> [] \<and> last c"
proof -
  from assms(1) have "c ! e" by (simp add: run_at_def)
  moreover have "c \<noteq> []" using assms(2) by auto
  moreover have "length c - 1 = e" using assms(2) by simp
  ultimately show ?thesis by (simp add: last_conv_nth)
qed

lemma squeeze_loop_snoc:
  "squeeze_loop (xs @ [x]) = squeeze_step (length xs, x) (squeeze_loop xs)"
  by (simp add: squeeze_loop_def enumerate_append_eq)

lemma squeeze_inv_step:
  assumes "squeeze_inv xs st"
  shows "squeeze_inv (xs @ [x]) (squeeze_step (length xs, x) st)"
proof -
  obtain b start ps where st: "st = (b, start, ps)" by (cases st)
  from assms st have b: "b \<longleftrightarrow> xs \<noteq> [] \<and> last xs"
    and r: "b \<longrightarrow> (\<exists>s. start = Some (int s) \<and> run_at xs s (length xs - 1))"
    and ps: "set ps = {(int s, int e) | s e. completed_run xs s e}"
    and d: "distinct ps"
    by (auto simp: squeeze_inv_def)
  show ?thesis
  proof (cases x)
    case True
    have same: "{(int s, int e) | s e. completed_run (xs @ [x]) s e}
                = {(int s, int e) | s e. completed_run xs s e}"
      using True by (simp add: completed_run_snoc)
    show ?thesis
    proof (cases b)
      case True
      then obtain s where "start = Some (int s)" "run_at xs s (length xs - 1)"
        using r by blast
      with \<open>x\<close> \<open>b\<close> st ps d same run_at_extend [of xs s x] show ?thesis
        by (simp add: squeeze_inv_def)
    next
      case False
      with \<open>x\<close> st ps d same b run_at_fresh [of xs x] show ?thesis
        by (simp add: squeeze_inv_def)
    qed
  next
    case False
    show ?thesis
    proof (cases b)
      case True
      then obtain s0 where s0: "start = Some (int s0)" "run_at xs s0 (length xs - 1)"
        using r by blast
      from True b have ne: "xs \<noteq> []" by simp
      have new: "{(int s, int e) | s e. completed_run (xs @ [x]) s e}
                = {(int s, int e) | s e. completed_run xs s e}
                  \<union> {(int s0, int (length xs) - 1)}"
      proof -
        have "\<And>s e. (run_at xs s e \<and> Suc e = length xs) \<longleftrightarrow> (s = s0 \<and> e = length xs - 1)"
          using s0(2) ne run_at_start_unique
          by (metis Suc_pred' length_greater_0_conv diff_Suc_1)
        then have "\<And>s e. completed_run (xs @ [x]) s e \<longleftrightarrow>
                     completed_run xs s e \<or> (s = s0 \<and> e = length xs - 1)"
          using False by (simp add: completed_run_snoc)
        then have "{(int s, int e) | s e. completed_run (xs @ [x]) s e}
                = {(int s, int e) | s e. completed_run xs s e}
                  \<union> {(int s0, int (length xs - 1))}"
          by auto
        moreover have "int (length xs - 1) = int (length xs) - 1"
          using ne by (simp add: Suc_leI)
        ultimately show ?thesis by simp
      qed
      have notin: "(int s0, int (length xs) - 1) \<notin> set ps"
        unfolding ps by (auto simp: completed_run_def)
      from False True st s0 new notin ps d show ?thesis
        by (simp add: squeeze_inv_def)
    next
      case nb: False
      have "\<And>s e. \<not> (run_at xs s e \<and> Suc e = length xs)"
        using nb b run_at_last by blast
      then have "\<And>s e. completed_run (xs @ [x]) s e \<longleftrightarrow> completed_run xs s e"
        unfolding completed_run_snoc by blast
      then have same: "{(int s, int e) | s e. completed_run (xs @ [x]) s e}
                = {(int s, int e) | s e. completed_run xs s e}"
        by simp
      from False nb st ps d same show ?thesis
        by (simp add: squeeze_inv_def)
    qed
  qed
qed

lemma squeeze_inv_loop: "squeeze_inv xs (squeeze_loop xs)"
proof (induction xs rule: rev_induct)
  case Nil
  show ?case by (simp add: squeeze_inv_def squeeze_loop_def completed_run_def)
next
  case (snoc x xs)
  then show ?case by (simp add: squeeze_loop_snoc squeeze_inv_step)
qed


lemma card_completed:
  "card {(int s, int e) | s e. completed_run c s e} = card {(s, e). completed_run c s e}"
proof -
  have "{(int s, int e) | s e. completed_run c s e}
        = (\<lambda>(s, e). (int s, int e)) ` {(s, e). completed_run c s e}"
    by auto
  moreover have "inj_on (\<lambda>(s, e). (int s, int e)) {(s, e). completed_run c s e}"
    by (auto simp: inj_on_def)
  ultimately show ?thesis by (simp add: card_image)
qed

text \<open>
  C10. The recorded squeeze periods are exactly the maximal runs of true bars that are
  followed by a false bar, each recorded once, and \<open>total_squeezes\<close> counts them; every
  recorded period ends before the final bar, and the run that reaches the final bar (a
  squeeze still in progress when the data ends) is not recorded.
\<close>

theorem C10_squeeze_runs:
  "set (squeeze_periods_of c) = {(int s, int e) | s e. completed_run c s e}
   \<and> distinct (squeeze_periods_of c)
   \<and> total_squeezes c = card {(s, e). completed_run c s e}
   \<and> (\<forall>(s, e) \<in> set (squeeze_periods_of c). e < int (length c) - 1)
   \<and> (\<forall>s. run_at c s (length c - 1) \<longrightarrow>
          (\<forall>p \<in> set (squeeze_periods_of c). fst p \<noteq> int s))"
proof -
  obtain b start ps where st: "squeeze_loop c = (b, start, ps)"
    by (cases "squeeze_loop c")
  have inv: "squeeze_inv c (b, start, ps)"
    using squeeze_inv_loop [of c] st by simp
  have ps: "squeeze_periods_of c = ps" by (simp add: squeeze_periods_of_def st)
  have s: "set ps = {(int s, int e) | s e. completed_run c s e}" and d: "distinct ps"
    using inv by (auto simp: squeeze_inv_def)
  have t: "total_squeezes c = card {(s, e). completed_run c s e}"
    using d s distinct_card [of ps] card_completed [of c]
    by (simp add: total_squeezes_def ps)
  have e: "\<forall>(s, e) \<in> set ps. e < int (length c) - 1"
    unfolding s by (auto simp: completed_run_def)
  have tr: "\<forall>s. run_at c s (length c - 1) \<longrightarrow> (\<forall>p \<in> set ps. fst p \<noteq> int s)"
  proof (intro allI impI ballI)
    fix s p assume r: "run_at c s (length c - 1)" and p: "p \<in> set ps"
    from p obtain s' e' where p': "p = (int s', int e')" and c': "completed_run c s' e'"
      unfolding s by auto
    show "fst p \<noteq> int s"
    proof
      assume "fst p = int s"
      then have "s' = s" using p' by simp
      with c' have "run_at c s e'" "Suc e' < length c" "\<not> c ! Suc e'"
        by (auto simp: completed_run_def)
      moreover have "Suc e' \<in> {s..length c - 1}"
        using \<open>run_at c s e'\<close> \<open>Suc e' < length c\<close> by (auto simp: run_at_def)
      ultimately show False using r by (auto simp: run_at_def)
    qed
  qed
  from s d t e tr show ?thesis unfolding ps by blast
qed

theorem C10_squeeze_runs_witness:
  "squeeze_periods_of [True, True, False, True, True] = [(0, 1)]
   \<and> total_squeezes [True, True, False, True, True] = 1
   \<and> card {(s, e). completed_run [True, True, False, True, True] s e} = 1"
  using C10_squeeze_runs [of "[True, True, False, True, True]"]
  by (simp add: squeeze_periods_of_def squeeze_loop_def total_squeezes_def enumerate_eq_zip upt_rec)

section \<open>Properties of frames and heaps\<close>

lemma only_at_refl [simp]: "only_at a h h"
  by (simp add: only_at_def)

lemma only_at_update [simp]: "only_at a h (h[a := x])"
  by (simp add: only_at_def)

lemma only_at_trans: "only_at a h h' \<Longrightarrow> only_at a h' h'' \<Longrightarrow> only_at a h h''"
  by (simp add: only_at_def)

lemma frames_kept_copy: "df_copy h a = (r, h') \<Longrightarrow> frames_kept h h' \<and> r = length h"
  by (auto simp: df_copy_def frames_kept_def nth_append)

lemma frames_kept_only_at:
  "frames_kept h h1 \<Longrightarrow> only_at a h1 h2 \<Longrightarrow> length h \<le> a \<Longrightarrow> frames_kept h h2"
  by (auto simp: frames_kept_def only_at_def)

lemma df_index_df_set [simp]: "df_index (df_set k v df) = df_index df"
  by (simp add: df_set_def)

lemma df_index_df_set_all [simp]: "df_index (df_set_all d df) = df_index df"
  unfolding df_set_all_def by (induction d arbitrary: df) auto

lemma bind_err_Inr_iff:
  "bind_err m f = Inr y \<longleftrightarrow> (\<exists>x. m = Inr x \<and> f x = Inr y)"
  by (cases m) (simp_all add: bind_err_def)

lemma bind_err_Inr [simp]: "bind_err (Inr x) f = f x"
  by (simp add: bind_err_def)

lemma bind_err_Inl [simp]: "bind_err (Inl e) f = Inl e"
  by (simp add: bind_err_def)

section \<open>Properties of BollingerBands\<close>

lemma calculate_bollinger_bands_frame:
  assumes "calculate_bollinger_bands ta period std_dev self h = (r, self', h')"
  shows "bb_data self' = bb_data self \<and> bb_close self' = bb_close self
         \<and> only_at (bb_data self) h h'
         \<and> df_index (h' ! bb_data self) = df_index (h ! bb_data self)"
proof (cases "bollinger_dict ta (default period BOLLINGER_CONFIG_period)
               (default std_dev BOLLINGER_CONFIG_std_dev) (bb_close self)
               (df_index (h ! bb_data self))")
  case (Inl e)
  with assms show ?thesis by (simp add: calculate_bollinger_bands_def Let_def)
next
  case (Inr bd)
  with assms have "self' = self\<lparr>bollinger_data := bd\<rparr>"
    and h': "h' = h[bb_data self := df_set_all bd (h ! bb_data self)]"
    by (simp_all add: calculate_bollinger_bands_def Let_def)
  then show ?thesis
    by (cases "bb_data self < length h") (simp_all add: list_update_beyond)
qed

lemma ensure_bollinger_frame:
  assumes "ensure_bollinger ta self h = (r, self', h')"
  shows "bb_data self' = bb_data self \<and> bb_close self' = bb_close self
         \<and> only_at (bb_data self) h h'
         \<and> df_index (h' ! bb_data self) = df_index (h ! bb_data self)"
proof (cases "bollinger_data self = []")
  case True
  obtain r0 s0 h0 where c: "calculate_bollinger_bands ta None None self h = (r0, s0, h0)"
    by (cases "calculate_bollinger_bands ta None None self h") auto
  with assms True have "self' = s0" "h' = h0"
    by (cases r0; simp add: ensure_bollinger_def)+
  with calculate_bollinger_bands_frame [OF c] show ?thesis by simp
next
  case False
  with assms show ?thesis by (simp add: ensure_bollinger_def)
qed

lemma calculate_band_width_frame:
  assumes "calculate_band_width ta self h = (r, self', h')"
  shows "bb_data self' = bb_data self \<and> bb_close self' = bb_close self
         \<and> only_at (bb_data self) h h'"
proof -
  obtain r0 s0 h0 where e: "ensure_bollinger ta self h = (r0, s0, h0)"
    by (cases "ensure_bollinger ta self h") auto
  note f = ensure_bollinger_frame [OF e]
  from assms e have "self' = s0 \<and> (h' = h0 \<or> (\<exists>x. h' = h0[bb_data s0 := x]))"
    by (auto simp: calculate_band_width_def split: sum.splits)
  then have "self' = s0" and "only_at (bb_data self) h0 h'"
    using f by auto
  with f only_at_trans show ?thesis by blast
qed

lemma calculate_percent_b_frame:
  assumes "calculate_percent_b ta self h = (r, self', h')"
  shows "bb_data self' = bb_data self \<and> bb_close self' = bb_close self
         \<and> only_at (bb_data self) h h'"
proof -
  obtain r0 s0 h0 where e: "ensure_bollinger ta self h = (r0, s0, h0)"
    by (cases "ensure_bollinger ta self h") auto
  note f = ensure_bollinger_frame [OF e]
  from assms e have "self' = s0 \<and> (h' = h0 \<or> (\<exists>x. h' = h0[bb_data s0 := x]))"
    by (auto simp: calculate_percent_b_def split: sum.splits)
  then have "self' = s0" and "only_at (bb_data self) h0 h'"
    using f by auto
  with f only_at_trans show ?thesis by blast
qed

lemma bb_do_frame:
  assumes "bb_do ta c self h = (raised, self', h')"
  shows "bb_data self' = bb_data self \<and> only_at (bb_data self) h h'"
proof (cases c)
  case (Calculate_bollinger_bands p s)
  with assms calculate_bollinger_bands_frame [of ta p s self h] show ?thesis
    by (auto split: prod.splits)
next
  case Calculate_band_width
  with assms calculate_band_width_frame [of ta self h] show ?thesis
    by (auto split: prod.splits)
next
  case Calculate_percent_b
  with assms calculate_percent_b_frame [of ta self h] show ?thesis
    by (auto split: prod.splits)
qed

lemma bb_run_frame:
  "bb_run ta cs self h = (self', h') \<Longrightarrow>
     bb_data self' = bb_data self \<and> only_at (bb_data self) h h'"
proof (induction cs arbitrary: self h)
  case Nil
  then show ?case by simp
next
  case (Cons c cs)
  obtain raised s1 h1 where d: "bb_do ta c self h = (raised, s1, h1)"
    by (cases "bb_do ta c self h") auto
  note f = bb_do_frame [OF d]
  show ?case
  proof (cases raised)
    case True
    with Cons.prems d f show ?thesis by simp
  next
    case False
    with Cons.prems d have "bb_run ta cs s1 h1 = (self', h')" by simp
    from Cons.IH [OF this] f only_at_trans show ?thesis by auto
  qed
qed

lemma BollingerBands_init_frame:
  assumes "BollingerBands_init h a = (r, h1)"
  shows "frames_kept h h1 \<and> length h1 = Suc (length h)
         \<and> (\<forall>self. r = Inr self \<longrightarrow> bb_data self = length h)"
  using assms
  by (auto simp: BollingerBands_init_def df_copy_def frames_kept_def nth_append
      split: sum.splits)

lemma calculate_bollinger_bands_twice:
  assumes "calculate_bollinger_bands ta p s self h = (Inr out, self', h')"
  shows "fst (calculate_bollinger_bands ta p s self' h') = Inr out"
proof -
  note f = calculate_bollinger_bands_frame [OF assms]
  from assms have "bollinger_dict ta (default p BOLLINGER_CONFIG_period)
               (default s BOLLINGER_CONFIG_std_dev) (bb_close self)
               (df_index (h ! bb_data self)) = Inr out"
    by (auto simp: calculate_bollinger_bands_def Let_def split: sum.splits)
  with f show ?thesis by (simp add: calculate_bollinger_bands_def Let_def)
qed

lemma bollinger_dict_nonempty: "bollinger_dict ta p s c idx = Inr bd \<Longrightarrow> bd \<noteq> []"
  by (auto simp: bollinger_dict_def bind_err_Inr_iff)

lemma ensure_bollinger_ok:
  assumes "ensure_bollinger ta self h = (Inr u, self', h')"
  shows "bollinger_data self' \<noteq> []"
proof (cases "bollinger_data self = []")
  case True
  with assms obtain bd where "calculate_bollinger_bands ta None None self h = (Inr bd, self', h')"
    by (auto simp: ensure_bollinger_def split: prod.splits sum.splits)
  then show ?thesis
    by (auto simp: calculate_bollinger_bands_def Let_def split: sum.splits
        dest: bollinger_dict_nonempty)
next
  case False
  with assms show ?thesis by (simp add: ensure_bollinger_def)
qed

lemma ensure_bollinger_present:
  "bollinger_data self \<noteq> [] \<Longrightarrow> ensure_bollinger ta self h = (Inr (), self, h)"
  by (simp add: ensure_bollinger_def)

lemma calculate_band_width_twice:
  assumes "calculate_band_width ta self h = (Inr out, self', h')"
  shows "fst (calculate_band_width ta self' h') = Inr out"
proof -
  obtain r0 s0 h0 where e: "ensure_bollinger ta self h = (r0, s0, h0)"
    by (cases "ensure_bollinger ta self h") auto
  from assms e have r0: "r0 = Inr ()" and s0: "self' = s0"
    and out: "bind_err (get_item (bollinger_data s0) ''BB_Upper'') (\<lambda>upper.
                bind_err (get_item (bollinger_data s0) ''BB_Lower'') (\<lambda>lower.
                bind_err (get_item (bollinger_data s0) ''BB_Middle'') (\<lambda>middle.
                  Inr (series_div (series_sub upper lower) middle)))) = Inr out"
    by (auto simp: calculate_band_width_def split: sum.splits)
  have "bollinger_data s0 \<noteq> []" using ensure_bollinger_ok e r0 by blast
  then have "ensure_bollinger ta self' h' = (Inr (), self', h')"
    using s0 by (simp add: ensure_bollinger_present)
  with out s0 show ?thesis by (simp add: calculate_band_width_def)
qed

lemma calculate_percent_b_twice:
  assumes "calculate_percent_b ta self h = (Inr out, self', h')"
  shows "fst (calculate_percent_b ta self' h') = Inr out"
proof -
  obtain r0 s0 h0 where e: "ensure_bollinger ta self h = (r0, s0, h0)"
    by (cases "ensure_bollinger ta self h") auto
  from assms e have r0: "r0 = Inr ()" and s0: "self' = s0"
    and out: "bind_err (mk_series (df_index (h0 ! bb_data s0)) (bb_close s0))
                  (\<lambda>close_prices.
                bind_err (get_item (bollinger_data s0) ''BB_Upper'') (\<lambda>upper.
                bind_err (get_item (bollinger_data s0) ''BB_Lower'') (\<lambda>lower.
                  Inr (series_div (series_sub close_prices lower) (series_sub upper lower)))))
              = Inr out"
    and h': "h' = h0[bb_data s0 := df_set ''Percent_B'' out (h0 ! bb_data s0)]"
    by (auto simp: calculate_percent_b_def split: sum.splits)
  have "df_index (h' ! bb_data s0) = df_index (h0 ! bb_data s0)"
    unfolding h' by (cases "bb_data s0 < length h0") (simp_all add: list_update_beyond)
  moreover have "bollinger_data s0 \<noteq> []" using ensure_bollinger_ok e r0 by blast
  then have "ensure_bollinger ta self' h' = (Inr (), self', h')"
    using s0 by (simp add: ensure_bollinger_present)
  ultimately show ?thesis using out s0 by (simp add: calculate_percent_b_def)
qed

section \<open>Properties of KDJIndicator, RSIIndicator and MACDIndicator\<close>

lemma calculate_kdj_frame:
  assumes "calculate_kdj ta a b c self h = (r, self', h')"
  shows "kdj_data_ref self' = kdj_data_ref self \<and> kdj_high self' = kdj_high self
         \<and> kdj_low self' = kdj_low self \<and> kdj_close self' = kdj_close self
         \<and> only_at (kdj_data_ref self) h h'
         \<and> df_index (h' ! kdj_data_ref self) = df_index (h ! kdj_data_ref self)"
proof (cases "kdj_dict ta (default a KDJ_CONFIG_fastk_period)
               (default b KDJ_CONFIG_slowk_period) (default c KDJ_CONFIG_slowd_period)
               (kdj_high self) (kdj_low self) (kdj_close self)
               (df_index (h ! kdj_data_ref self))")
  case (Inl e)
  with assms show ?thesis by (simp add: calculate_kdj_def Let_def)
next
  case (Inr kd)
  with assms have "self' = self\<lparr>kdj_data := kd\<rparr>"
    and "h' = h[kdj_data_ref self := df_set_all kd (h ! kdj_data_ref self)]"
    by (simp_all add: calculate_kdj_def Let_def)
  then show ?thesis
    by (cases "kdj_data_ref self < length h") (simp_all add: list_update_beyond)
qed

lemma calculate_kdj_twice:
  assumes "calculate_kdj ta a b c self h = (Inr out, self', h')"
  shows "fst (calculate_kdj ta a b c self' h') = Inr out"
proof -
  note f = calculate_kdj_frame [OF assms]
  from assms have "kdj_dict ta (default a KDJ_CONFIG_fastk_period)
               (default b KDJ_CONFIG_slowk_period) (default c KDJ_CONFIG_slowd_period)
               (kdj_high self) (kdj_low self) (kdj_close self)
               (df_index (h ! kdj_data_ref self)) = Inr out"
    by (auto simp: calculate_kdj_def Let_def split: sum.splits)
  with f show ?thesis by (simp add: calculate_kdj_def Let_def)
qed

lemma calculate_rsi_frame:
  assumes "calculate_rsi ta p self h = (r, self', h')"
  shows "self' = self \<and> only_at (rsi_data_ref self) h h'
         \<and> df_index (h' ! rsi_data_ref self) = df_index (h ! rsi_data_ref self)"
proof (cases "bind_err (tb_RSI ta (rsi_close self) (default p RSI_CONFIG_period))
               (mk_series (df_index (h ! rsi_data_ref self)))")
  case (Inl e)
  with assms show ?thesis by (simp add: calculate_rsi_def Let_def)
next
  case (Inr s)
  with assms have "self' = self"
    and "h' = h[rsi_data_ref self := df_set ''RSI'' s (h ! rsi_data_ref self)]"
    by (auto simp: calculate_rsi_def Let_def)
  then show ?thesis
    by (cases "rsi_data_ref self < length h") (simp_all add: list_update_beyond)
qed

lemma calculate_rsi_twice:
  assumes "calculate_rsi ta p self h = (Inr out, self', h')"
  shows "fst (calculate_rsi ta p self' h') = Inr out"
proof -
  note f = calculate_rsi_frame [OF assms]
  from assms have "bind_err (tb_RSI ta (rsi_close self) (default p RSI_CONFIG_period))
               (mk_series (df_index (h ! rsi_data_ref self))) = Inr out"
    by (auto simp: calculate_rsi_def Let_def split: sum.splits)
  with f show ?thesis by (simp add: calculate_rsi_def Let_def)
qed

lemma calculate_macd_frame:
  assumes "calculate_macd ta a b c self h = (r, self', h')"
  shows "macd_data_ref self' = macd_data_ref self \<and> macd_close self' = macd_close self
         \<and> only_at (macd_data_ref self) h h'
         \<and> df_index (h' ! macd_data_ref self) = df_index (h ! macd_data_ref self)"
proof (cases "macd_dict ta (default a MACD_CONFIG_fast_period)
               (default b MACD_CONFIG_slow_period) (default c MACD_CONFIG_signal_period)
               (macd_close self) (df_index (h ! macd_data_ref self))")
  case (Inl e)
  with assms show ?thesis by (simp add: calculate_macd_def Let_def)
next
  case (Inr md)
  with assms have "self' = self\<lparr>macd_data := md\<rparr>"
    and "h' = h[macd_data_ref self := df_set_all md (h ! macd_data_ref self)]"
    by (simp_all add: calculate_macd_def Let_def)
  then show ?thesis
    by (cases "macd_data_ref self < length h") (simp_all add: list_update_beyond)
qed

lemma calculate_macd_twice:
  assumes "calculate_macd ta a b c self h = (Inr out, self', h')"
  shows "fst (calculate_macd ta a b c self' h') = Inr out"
proof -
  note f = calculate_macd_frame [OF assms]
  from assms have "macd_dict ta (default a MACD_CONFIG_fast_period)
               (default b MACD_CONFIG_slow_period) (default c MACD_CONFIG_signal_period)
               (macd_close self) (df_index (h ! macd_data_ref self)) = Inr out"
    by (auto simp: calculate_macd_def Let_def split: sum.splits)
  with f show ?thesis by (simp add: calculate_macd_def Let_def)
qed

lemma kdj_run_frame:
  "kdj_run ta cs self h = (self', h') \<Longrightarrow>
     kdj_data_ref self' = kdj_data_ref self \<and> only_at (kdj_data_ref self) h h'"
proof (induction cs arbitrary: self h)
  case Nil
  then show ?case by simp
next
  case (Cons c cs)
  obtain a b d where c: "c = Calculate_kdj a b d" by (cases c)
  obtain r s1 h1 where d: "calculate_kdj ta a b d self h = (r, s1, h1)"
    by (cases "calculate_kdj ta a b d self h") auto
  note f = calculate_kdj_frame [OF d]
  show ?case
  proof (cases "isl r")
    case True
    with Cons.prems c d f show ?thesis by simp
  next
    case False
    with Cons.prems c d have "kdj_run ta cs s1 h1 = (self', h')" by simp
    from Cons.IH [OF this] f only_at_trans show ?thesis by auto
  qed
qed

lemma rsi_run_frame:
  "rsi_run ta cs self h = (self', h') \<Longrightarrow>
     rsi_data_ref self' = rsi_data_ref self \<and> only_at (rsi_data_ref self) h h'"
proof (induction cs arbitrary: self h)
  case Nil
  then show ?case by simp
next
  case (Cons c cs)
  obtain p where c: "c = Calculate_rsi p" by (cases c)
  obtain r s1 h1 where d: "calculate_rsi ta p self h = (r, s1, h1)"
    by (cases "calculate_rsi ta p self h") auto
  note f = calculate_rsi_frame [OF d]
  show ?case
  proof (cases "isl r")
    case True
    with Cons.prems c d f show ?thesis by simp
  next
    case False
    with Cons.prems c d have "rsi_run ta cs s1 h1 = (self', h')" by simp
    from Cons.IH [OF this] f only_at_trans show ?thesis by auto
  qed
qed

lemma macd_run_frame:
  "macd_run ta cs self h = (self', h') \<Longrightarrow>
     macd_data_ref self' = macd_data_ref self \<and> only_at (macd_data_ref self) h h'"
proof (induction cs arbitrary: self h)
  case Nil
  then show ?case by simp
next
  case (Cons c cs)
  obtain a b d where c: "c = Calculate_macd a b d" by (cases c)
  obtain r s1 h1 where d: "calculate_macd ta a b d self h = (r, s1, h1)"
    by (cases "calculate_macd ta a b d self h") auto
  note f = calculate_macd_frame [OF d]
  show ?case
  proof (cases "isl r")
    case True
    with Cons.prems c d f show ?thesis by simp
  next
    case False
    with Cons.prems c d have "macd_run ta cs s1 h1 = (self', h')" by simp
    from Cons.IH [OF this] f only_at_trans show ?thesis by auto
  qed
qed

lemma KDJIndicator_init_frame:
  assumes "KDJIndicator_init h a = (r, h1)"
  shows "frames_kept h h1 \<and> length h1 = Suc (length h)
         \<and> (\<forall>self. r = Inr self \<longrightarrow> kdj_data_ref self = length h)"
  using assms
  by (auto simp: KDJIndicator_init_def df_copy_def frames_kept_def nth_append
      bind_err_Inr_iff split: sum.splits)

lemma RSIIndicator_init_frame:
  assumes "RSIIndicator_init h a = (r, h1)"
  shows "frames_kept h h1 \<and> length h1 = Suc (length h)
         \<and> (\<forall>self. r = Inr self \<longrightarrow> rsi_data_ref self = length h)"
  using assms
  by (auto simp: RSIIndicator_init_def df_copy_def frames_kept_def nth_append
      split: sum.splits)

lemma MACDIndicator_init_frame:
  assumes "MACDIndicator_init h a = (r, h1)"
  shows "frames_kept h h1 \<and> length h1 = Suc (length h)
         \<and> (\<forall>self. r = Inr self \<longrightarrow> macd_data_ref self = length h)"
  using assms
  by (auto simp: MACDIndicator_init_def df_copy_def frames_kept_def nth_append
      split: sum.splits)

section \<open>Properties of dicts and of MovingAverageSystem\<close>

lemma set_item_same: "map_of d k = Some v \<Longrightarrow> set_item k v d = d"
  by (induction d) (auto split: if_splits)

lemma map_of_set_item: "map_of (set_item k v d) = (map_of d)(k \<mapsto> v)"
  by (induction d) (auto simp: fun_eq_iff)

lemma keys_set_item: "fst ` set (set_item k v d) = insert k (fst ` set d)"
proof (induction d)
  case Nil
  show ?case by simp
next
  case (Cons p d)
  obtain k' v' where p: "p = (k', v')" by (cases p)
  show ?case
  proof (cases "k' = k")
    case True
    with p show ?thesis by simp
  next
    case False
    with p Cons.IH show ?thesis by (simp add: insert_commute)
  qed
qed

lemma distinct_set_item:
  "distinct (map fst d) \<Longrightarrow> distinct (map fst (set_item k v d))"
proof (induction d)
  case Nil
  then show ?case by simp
next
  case (Cons p d)
  obtain k' v' where p: "p = (k', v')" by (cases p)
  show ?case
  proof (cases "k' = k")
    case True
    with Cons.prems p show ?thesis by simp
  next
    case False
    have "k' \<notin> fst ` set (set_item k v d)"
      using Cons.prems p False by (simp add: keys_set_item)
    with Cons p False show ?thesis by simp
  qed
qed

lemma dict_update_Cons:
  "dict_update d ((k, v) # kv) = dict_update (set_item k v d) kv"
  by (simp add: dict_update_def)

lemma dict_update_same:
  "\<forall>(k, v) \<in> set kv. map_of d k = Some v \<Longrightarrow> dict_update d kv = d"
proof (induction kv)
  case Nil
  show ?case by (simp add: dict_update_def)
next
  case (Cons p kv)
  obtain k v where p: "p = (k, v)" by (cases p)
  with Cons.prems have "set_item k v d = d" by (simp add: set_item_same)
  with Cons p show ?case by (simp add: dict_update_Cons)
qed

lemma map_of_dict_update_notin:
  "k \<notin> fst ` set kv \<Longrightarrow> map_of (dict_update d kv) k = map_of d k"
proof (induction kv arbitrary: d)
  case Nil
  show ?case by (simp add: dict_update_def)
next
  case (Cons p kv)
  obtain k' v' where p: "p = (k', v')" by (cases p)
  with Cons.prems have "k \<noteq> k'" "k \<notin> fst ` set kv" by auto
  with Cons.IH [of "set_item k' v' d"] p show ?case
    by (simp add: dict_update_Cons map_of_set_item)
qed

lemma map_of_dict_update_in:
  "distinct (map fst kv) \<Longrightarrow> (k, v) \<in> set kv \<Longrightarrow> map_of (dict_update d kv) k = Some v"
proof (induction kv arbitrary: d)
  case Nil
  then show ?case by simp
next
  case (Cons p kv)
  obtain k' v' where p: "p = (k', v')" by (cases p)
  show ?case
  proof (cases "(k, v) = (k', v')")
    case True
    then have "k \<notin> fst ` set kv" using Cons.prems(1) p by auto
    then show ?thesis
      using True p by (simp add: dict_update_Cons map_of_dict_update_notin map_of_set_item)
  next
    case False
    with Cons.prems p have "(k, v) \<in> set kv" "distinct (map fst kv)" by auto
    with Cons.IH [of "set_item k' v' d"] p show ?thesis
      by (simp add: dict_update_Cons)
  qed
qed

lemma ma_loop_keys:
  assumes "ma_loop f pre close idx ps acc = Inr S"
    and "distinct (map fst acc)"
    and "\<forall>k \<in> fst ` set acc. \<exists>x. k = pre @ x"
  shows "distinct (map fst S) \<and> (\<forall>k \<in> fst ` set S. \<exists>x. k = pre @ x)"
  using assms
proof (induction ps arbitrary: acc)
  case Nil
  then show ?case by simp
next
  case (Cons p ps)
  from Cons.prems(1) obtain vals s where
    "f close p = Inr vals" "mk_series idx vals = Inr s"
    and rest: "ma_loop f pre close idx ps (set_item (pre @ str_int p) s acc) = Inr S"
    by (auto simp: bind_err_Inr_iff)
  have "distinct (map fst (set_item (pre @ str_int p) s acc))"
    using Cons.prems(2) by (rule distinct_set_item)
  moreover have "\<forall>k \<in> fst ` set (set_item (pre @ str_int p) s acc). \<exists>x. k = pre @ x"
    using Cons.prems(3) by (auto simp: keys_set_item)
  ultimately show ?case using Cons.IH [OF rest] by blast
qed

lemma calculate_all_ma_Inr:
  assumes "calculate_all_ma ta self h = (Inr out, self', h')"
  shows "\<exists>S E.
           ma_loop (tb_SMA ta) ''SMA_'' (ma_close self) (df_index (h ! ma_data_ref self))
             MA_PERIODS_sma [] = Inr S
         \<and> ma_loop (tb_EMA ta) ''EMA_'' (ma_close self) (df_index (h ! ma_data_ref self))
             MA_PERIODS_ema [] = Inr E
         \<and> out = dict_update (dict_update (ma_data self) S) E
         \<and> self' = self\<lparr>ma_data := out\<rparr>
         \<and> h' = h[ma_data_ref self := df_set_all out (h ! ma_data_ref self)]"
  using assms
  by (auto simp: calculate_all_ma_def calculate_sma_def calculate_ema_def default_def Let_def
      split: sum.splits)

lemma calculate_all_ma_frame:
  assumes "calculate_all_ma ta self h = (r, self', h')"
  shows "ma_data_ref self' = ma_data_ref self \<and> ma_close self' = ma_close self
         \<and> only_at (ma_data_ref self) h h'"
  using assms
  by (auto simp: calculate_all_ma_def calculate_sma_def calculate_ema_def default_def Let_def
      split: sum.splits)

lemma calculate_all_ma_twice:
  assumes "calculate_all_ma ta self h = (Inr out, self', h')"
  shows "fst (calculate_all_ma ta self' h') = Inr out"
proof -
  let ?idx = "df_index (h ! ma_data_ref self)"
  from calculate_all_ma_Inr [OF assms] obtain S E where
    S: "ma_loop (tb_SMA ta) ''SMA_'' (ma_close self) ?idx MA_PERIODS_sma [] = Inr S"
    and E: "ma_loop (tb_EMA ta) ''EMA_'' (ma_close self) ?idx MA_PERIODS_ema [] = Inr E"
    and out: "out = dict_update (dict_update (ma_data self) S) E"
    and self': "self' = self\<lparr>ma_data := out\<rparr>"
    and h': "h' = h[ma_data_ref self := df_set_all out (h ! ma_data_ref self)]"
    by blast
  have idx: "df_index (h' ! ma_data_ref self') = ?idx"
    unfolding h' self'
    by (cases "ma_data_ref self < length h") (simp_all add: list_update_beyond)
  have kS: "distinct (map fst S)" "\<forall>k \<in> fst ` set S. \<exists>x. k = ''SMA_'' @ x"
    using ma_loop_keys [OF S] by simp_all
  have kE: "distinct (map fst E)" "\<forall>k \<in> fst ` set E. \<exists>x. k = ''EMA_'' @ x"
    using ma_loop_keys [OF E] by simp_all
  have "\<forall>(k, v) \<in> set S. map_of out k = Some v"
  proof (clarify)
    fix k v assume kv: "(k, v) \<in> set S"
    then have "k \<in> fst ` set S" by force
    then have "k \<notin> fst ` set E" using kS(2) kE(2) by fastforce
    then have "map_of out k = map_of (dict_update (ma_data self) S) k"
      unfolding out by (rule map_of_dict_update_notin)
    also have "\<dots> = Some v" using kS(1) kv by (rule map_of_dict_update_in)
    finally show "map_of out k = Some v" .
  qed
  then have 1: "dict_update out S = out" by (rule dict_update_same)
  have "\<forall>(k, v) \<in> set E. map_of out k = Some v"
    unfolding out using kE(1) by (auto intro: map_of_dict_update_in)
  then have 2: "dict_update out E = out" by (rule dict_update_same)
  show ?thesis
    using S E idx 1 2
    by (simp add: calculate_all_ma_def calculate_sma_def calculate_ema_def default_def
        self')
qed

lemma calculate_sma_twice:
  assumes "calculate_sma ta ps self h = (Inr out, self', h')"
  shows "fst (calculate_sma ta ps self' h') = Inr out"
  using assms by (auto simp: calculate_sma_def)

lemma calculate_ema_twice:
  assumes "calculate_ema ta ps self h = (Inr out, self', h')"
  shows "fst (calculate_ema ta ps self' h') = Inr out"
  using assms by (auto simp: calculate_ema_def)

lemma ma_do_frame:
  assumes "ma_do ta c self h = (raised, self', h')"
  shows "ma_data_ref self' = ma_data_ref self \<and> only_at (ma_data_ref self) h h'"
proof (cases c)
  case (Calculate_sma ps)
  with assms show ?thesis by (auto simp: calculate_sma_def)
next
  case (Calculate_ema ps)
  with assms show ?thesis by (auto simp: calculate_ema_def)
next
  case Calculate_all_ma
  with assms calculate_all_ma_frame [of ta self h] show ?thesis
    by (auto split: prod.splits)
qed

lemma ma_run_frame:
  "ma_run ta cs self h = (self', h') \<Longrightarrow>
     ma_data_ref self' = ma_data_ref self \<and> only_at (ma_data_ref self) h h'"
proof (induction cs arbitrary: self h)
  case Nil
  then show ?case by simp
next
  case (Cons c cs)
  obtain raised s1 h1 where d: "ma_do ta c self h = (raised, s1, h1)"
    by (cases "ma_do ta c self h") auto
  note f = ma_do_frame [OF d]
  show ?case
  proof (cases raised)
    case True
    with Cons.prems d f show ?thesis by simp
  next
    case False
    with Cons.prems d have "ma_run ta cs s1 h1 = (self', h')" by simp
    from Cons.IH [OF this] f only_at_trans show ?thesis by auto
  qed
qed

lemma MovingAverageSystem_init_frame:
  assumes "MovingAverageSystem_init h a = (r, h1)"
  shows "frames_kept h h1 \<and> length h1 = Suc (length h)
         \<and> (\<forall>self. r = Inr self \<longrightarrow> ma_data_ref self = length h)"
  using assms
  by (auto simp: MovingAverageSystem_init_def df_copy_def frames_kept_def nth_append
      split: sum.splits)

lemma str_nat_digit: "n < 10 \<Longrightarrow> str_nat n = [digit_char n]"
  by (subst str_nat.simps) simp

lemma str_nat_two_digits:
  "10 \<le> n \<Longrightarrow> n < 100 \<Longrightarrow> str_nat n = [digit_char (n div 10), digit_char (n mod 10)]"
  by (subst str_nat.simps) (simp add: str_nat_digit)

lemma str_int_periods:
  "str_int 5 = ''5''" "str_int 10 = ''10''" "str_int 20 = ''20''" "str_int 60 = ''60''"
  "str_int 12 = ''12''" "str_int 26 = ''26''"
  by (simp_all add: str_int_def str_nat_digit str_nat_two_digits digit_char_def)


section \<open>The RSI calculator on the modelled RSI\<close>





section \<open>The claims about the calculators\<close>

lemma percent_b_present:
  assumes "bollinger_data self \<noteq> []"
    and "get_item (bollinger_data self) ''BB_Upper'' = Inr upper"
    and "get_item (bollinger_data self) ''BB_Lower'' = Inr lower"
    and "length (df_index (h ! bb_data self)) = length (bb_close self)"
  shows "calculate_percent_b ta self h =
           (Inr (series_div (series_sub (bb_close self) lower) (series_sub upper lower)), self,
            h[bb_data self := df_set ''Percent_B''
                (series_div (series_sub (bb_close self) lower) (series_sub upper lower))
                (h ! bb_data self)])"
  using assms
  by (simp add: calculate_percent_b_def ensure_bollinger_present mk_series_def)

text \<open>
  C4 (as amended). Once the bands are calculated, \<open>calculate_percent_b\<close> raises nothing;
  at an index where the upper and the lower band are defined and equal and the close is
  finite, \<open>%B\<close> is NaN when the close equals the band value, \<open>+inf\<close> when the close is above
  it and \<open>-inf\<close> when it is below: the division is not guarded.
\<close>

theorem C4_percent_b_zero_width:
  assumes "bollinger_data self \<noteq> []"
    and "get_item (bollinger_data self) ''BB_Upper'' = Inr upper"
    and "get_item (bollinger_data self) ''BB_Lower'' = Inr lower"
    and "length (df_index (h ! bb_data self)) = length (bb_close self)"
    and "length upper = length (bb_close self)"
    and "length lower = length (bb_close self)"
    and "i < length (bb_close self)"
    and "upper ! i = Fin u" and "lower ! i = Fin u" and "bb_close self ! i = Fin c"
  shows "\<exists>percent_b self' h'.
           calculate_percent_b ta self h = (Inr percent_b, self', h')
         \<and> length percent_b = length (bb_close self)
         \<and> percent_b ! i = (if c = u then NaN else if u < c then PInf else NInf)"
proof -
  let ?pb = "series_div (series_sub (bb_close self) lower) (series_sub upper lower)"
  have len: "length ?pb = length (bb_close self)"
    using assms(5,6) by (simp add: series_div_def series_sub_def)
  have "?pb ! i = fl_div (fl_sub (Fin c) (Fin u)) (fl_sub (Fin u) (Fin u))"
    using assms(5-10) by (simp add: series_div_def series_sub_def)
  also have "\<dots> = (if c = u then NaN else if u < c then PInf else NInf)"
    by (simp add: fl_sub_def inf_of_sign_def)
  finally have "?pb ! i = (if c = u then NaN else if u < c then PInf else NInf)" .
  with len percent_b_present [OF assms(1-4), of ta] show ?thesis by blast
qed

theorem C4_percent_b_zero_width_witness:
  "fst (calculate_percent_b echo_talib
          (bb0\<lparr>bollinger_data := [(''BB_Upper'', [NaN, Fin 3]), (''BB_Middle'', [NaN, Fin 3]),
                                  (''BB_Lower'', [NaN, Fin 3])]\<rparr>)
          [df0, df0]) = Inr [NaN, NaN]"
proof -
  let ?self = "bb0\<lparr>bollinger_data := [(''BB_Upper'', [NaN, Fin 3]), (''BB_Middle'', [NaN, Fin 3]),
                                  (''BB_Lower'', [NaN, Fin 3])]\<rparr>"
  have "\<exists>percent_b self' h'.
           calculate_percent_b echo_talib ?self [df0, df0] = (Inr percent_b, self', h')
         \<and> length percent_b = length (bb_close ?self)
         \<and> percent_b ! 1 = (if (3::real) = 3 then NaN else if (3::real) < 3 then PInf else NInf)"
    by (rule C4_percent_b_zero_width [where upper = "[NaN, Fin 3]" and lower = "[NaN, Fin 3]"])
       (simp_all add: bb0_def df0_def get_item_def)
  then obtain pb where pb: "fst (calculate_percent_b echo_talib ?self [df0, df0]) = Inr pb"
    and l: "length pb = 2" and v: "pb ! 1 = NaN"
    by (auto simp: bb0_def)
  have "fst (calculate_percent_b echo_talib ?self [df0, df0]) = Inr [NaN, NaN]"
    by (simp add: calculate_percent_b_def ensure_bollinger_def bb0_def df0_def mk_series_def
        get_item_def series_div_def series_sub_def fl_sub_def inf_of_sign_def)
  with pb l v show ?thesis by simp
qed

text \<open>
  Without the case distinction the statement fails: after \<open>calculate_bollinger_bands(period=2, std_dev=0)\<close> on the
  closes \<open>[1, 3]\<close> both bands are the 2-bar mean, \<open>[NaN, 2]\<close>; the band at bar 1 has zero
  width and \<open>%B\<close> there is \<open>(3 - 2) / 0 = +inf\<close>, not NaN.
\<close>

theorem C4_percent_b_counterexample:
  "fst (calculate_percent_b echo_talib
          (bb0\<lparr>bollinger_data := [(''BB_Upper'', [NaN, Fin 2]), (''BB_Middle'', [NaN, Fin 2]),
                                  (''BB_Lower'', [NaN, Fin 2])]\<rparr>)
          [df0, df_set_all [(''BB_Upper'', [NaN, Fin 2]), (''BB_Middle'', [NaN, Fin 2]),
                            (''BB_Lower'', [NaN, Fin 2])] df0])
     = Inr [NaN, PInf]"
  by (simp add: calculate_percent_b_def ensure_bollinger_def bb0_def df0_def mk_series_def
      get_item_def series_div_def series_sub_def fl_sub_def inf_of_sign_def df_set_all_def
      df_set_def)

text \<open>
  C8. Calling a calculator a second time on the same object with the same arguments,
  right after a call that returned, returns the same series: for the three Bollinger
  calculations, KDJ, RSI, MACD and the three moving-average calculations, whatever the
  library functions compute.
\<close>

theorem C8_calculators_idempotent:
  "(\<forall>out self' h'. calculate_bollinger_bands ta period std_dev bb h = (Inr out, self', h')
       \<longrightarrow> fst (calculate_bollinger_bands ta period std_dev self' h') = Inr out)
 \<and> (\<forall>out self' h'. calculate_band_width ta bb h = (Inr out, self', h')
       \<longrightarrow> fst (calculate_band_width ta self' h') = Inr out)
 \<and> (\<forall>out self' h'. calculate_percent_b ta bb h = (Inr out, self', h')
       \<longrightarrow> fst (calculate_percent_b ta self' h') = Inr out)
 \<and> (\<forall>out self' h'. calculate_kdj ta fastk slowk slowd kdj h = (Inr out, self', h')
       \<longrightarrow> fst (calculate_kdj ta fastk slowk slowd self' h') = Inr out)
 \<and> (\<forall>out self' h'. calculate_rsi ta rsi_period rsi h = (Inr out, self', h')
       \<longrightarrow> fst (calculate_rsi ta rsi_period self' h') = Inr out)
 \<and> (\<forall>out self' h'. calculate_macd ta fast slow signal macd h = (Inr out, self', h')
       \<longrightarrow> fst (calculate_macd ta fast slow signal self' h') = Inr out)
 \<and> (\<forall>out self' h'. calculate_sma ta periods ma h = (Inr out, self', h')
       \<longrightarrow> fst (calculate_sma ta periods self' h') = Inr out)
 \<and> (\<forall>out self' h'. calculate_ema ta periods ma h = (Inr out, self', h')
       \<longrightarrow> fst (calculate_ema ta periods self' h') = Inr out)
 \<and> (\<forall>out self' h'. calculate_all_ma ta ma h = (Inr out, self', h')
       \<longrightarrow> fst (calculate_all_ma ta self' h') = Inr out)"
  by (intro conjI allI impI;
      erule calculate_bollinger_bands_twice calculate_band_width_twice
        calculate_percent_b_twice calculate_kdj_twice calculate_rsi_twice
        calculate_macd_twice calculate_sma_twice calculate_ema_twice calculate_all_ma_twice)



theorem C8_calculators_idempotent_witness:
  "(\<exists>out s h'. calculate_bollinger_bands echo_talib None None bb0 [df0, df0] = (Inr out, s, h')
       \<and> fst (calculate_bollinger_bands echo_talib None None s h') = Inr out)
 \<and> (\<exists>out s h'. calculate_band_width echo_talib bb0 [df0, df0] = (Inr out, s, h')
       \<and> fst (calculate_band_width echo_talib s h') = Inr out)
 \<and> (\<exists>out s h'. calculate_percent_b echo_talib bb0 [df0, df0] = (Inr out, s, h')
       \<and> fst (calculate_percent_b echo_talib s h') = Inr out)
 \<and> (\<exists>out s h'. calculate_kdj echo_talib None None None kdj0 [df0, df0] = (Inr out, s, h')
       \<and> fst (calculate_kdj echo_talib None None None s h') = Inr out)
 \<and> (\<exists>out s h'. calculate_rsi echo_talib None rsi0 [df0, df0] = (Inr out, s, h')
       \<and> fst (calculate_rsi echo_talib None s h') = Inr out)
 \<and> (\<exists>out s h'. calculate_macd echo_talib None None None macd0 [df0, df0] = (Inr out, s, h')
       \<and> fst (calculate_macd echo_talib None None None s h') = Inr out)
 \<and> (\<exists>out s h'. calculate_sma echo_talib None ma0 [df0, df0] = (Inr out, s, h')
       \<and> fst (calculate_sma echo_talib None s h') = Inr out)
 \<and> (\<exists>out s h'. calculate_ema echo_talib None ma0 [df0, df0] = (Inr out, s, h')
       \<and> fst (calculate_ema echo_talib None s h') = Inr out)
 \<and> (\<exists>out s h'. calculate_all_ma echo_talib ma0 [df0, df0] = (Inr out, s, h')
       \<and> fst (calculate_all_ma echo_talib s h') = Inr out)"
proof -
  note T = C8_calculators_idempotent [where ta = echo_talib and bb = bb0 and h = "[df0, df0]"
      and period = None and std_dev = None and fastk = None and slowk = None and slowd = None
      and kdj = kdj0 and rsi_period = None and rsi = rsi0 and fast = None and slow = None
      and signal = None and macd = macd0 and periods = None and ma = ma0]
  have e1: "\<exists>out s h'. calculate_bollinger_bands echo_talib None None bb0 [df0, df0]
              = (Inr out, s, h')"
    by (simp add: calculate_bollinger_bands_def bollinger_dict_def echo_talib_def bb0_def
        df0_def mk_series_def default_def)
  have e2: "\<exists>out s h'. calculate_band_width echo_talib bb0 [df0, df0] = (Inr out, s, h')"
    by (simp add: calculate_band_width_def ensure_bollinger_def calculate_bollinger_bands_def
        bollinger_dict_def echo_talib_def bb0_def df0_def mk_series_def default_def
        get_item_def)
  have e3: "\<exists>out s h'. calculate_percent_b echo_talib bb0 [df0, df0] = (Inr out, s, h')"
    by (simp add: calculate_percent_b_def ensure_bollinger_def calculate_bollinger_bands_def
        bollinger_dict_def echo_talib_def bb0_def df0_def mk_series_def default_def
        get_item_def df_set_all_def df_set_def)
  have e4: "\<exists>out s h'. calculate_kdj echo_talib None None None kdj0 [df0, df0]
              = (Inr out, s, h')"
    by (simp add: calculate_kdj_def kdj_dict_def j_values_of_def echo_talib_def kdj0_def
        df0_def mk_series_def default_def)
  have e5: "\<exists>out s h'. calculate_rsi echo_talib None rsi0 [df0, df0] = (Inr out, s, h')"
    by (simp add: calculate_rsi_def echo_talib_def rsi0_def df0_def mk_series_def default_def)
  have e6: "\<exists>out s h'. calculate_macd echo_talib None None None macd0 [df0, df0]
              = (Inr out, s, h')"
    by (simp add: calculate_macd_def macd_dict_def echo_talib_def macd0_def df0_def
        mk_series_def default_def)
  have e7: "\<exists>out s h'. calculate_sma echo_talib None ma0 [df0, df0] = (Inr out, s, h')"
    by (simp add: calculate_sma_def echo_talib_def ma0_def df0_def mk_series_def default_def
        MA_PERIODS_sma_def)
  have e8: "\<exists>out s h'. calculate_ema echo_talib None ma0 [df0, df0] = (Inr out, s, h')"
    by (simp add: calculate_ema_def echo_talib_def ma0_def df0_def mk_series_def default_def
        MA_PERIODS_ema_def)
  have e9: "\<exists>out s h'. calculate_all_ma echo_talib ma0 [df0, df0] = (Inr out, s, h')"
    by (simp add: calculate_all_ma_def calculate_sma_def calculate_ema_def echo_talib_def
        ma0_def df0_def mk_series_def default_def MA_PERIODS_sma_def MA_PERIODS_ema_def
        str_int_periods Let_def)
  have c1: "\<exists>out s h'. calculate_bollinger_bands echo_talib None None bb0 [df0, df0] = (Inr out, s, h')
            \<and> fst (calculate_bollinger_bands echo_talib None None s h') = Inr out"
  proof -
    from e1 obtain out s h' where e: "calculate_bollinger_bands echo_talib None None bb0 [df0, df0] = (Inr out, s, h')"
      by blast
    from T[THEN conjunct1] e have "fst (calculate_bollinger_bands echo_talib None None s h') = Inr out"
      by blast
    with e show ?thesis by blast
  qed
  have c2: "\<exists>out s h'. calculate_band_width echo_talib bb0 [df0, df0] = (Inr out, s, h')
            \<and> fst (calculate_band_width echo_talib s h') = Inr out"
  proof -
    from e2 obtain out s h' where e: "calculate_band_width echo_talib bb0 [df0, df0] = (Inr out, s, h')"
      by blast
    from T[THEN conjunct2, THEN conjunct1] e have "fst (calculate_band_width echo_talib s h') = Inr out"
      by blast
    with e show ?thesis by blast
  qed
  have c3: "\<exists>out s h'. calculate_percent_b echo_talib bb0 [df0, df0] = (Inr out, s, h')
            \<and> fst (calculate_percent_b echo_talib s h') = Inr out"
  proof -
    from e3 obtain out s h' where e: "calculate_percent_b echo_talib bb0 [df0, df0] = (Inr out, s, h')"
      by blast
    from T[THEN conjunct2, THEN conjunct2, THEN conjunct1] e have "fst (calculate_percent_b echo_talib s h') = Inr out"
      by blast
    with e show ?thesis by blast
  qed
  have c4: "\<exists>out s h'. calculate_kdj echo_talib None None None kdj0 [df0, df0] = (Inr out, s, h')
            \<and> fst (calculate_kdj echo_talib None None None s h') = Inr out"
  proof -
    from e4 obtain out s h' where e: "calculate_kdj echo_talib None None None kdj0 [df0, df0] = (Inr out, s, h')"
      by blast
    from T[THEN conjunct2, THEN conjunct2, THEN conjunct2, THEN conjunct1] e have "fst (calculate_kdj echo_talib None None None s h') = Inr out"
      by blast
    with e show ?thesis by blast
  qed
  have c5: "\<exists>out s h'. calculate_rsi echo_talib None rsi0 [df0, df0] = (Inr out, s, h')
            \<and> fst (calculate_rsi echo_talib None s h') = Inr out"
  proof -
    from e5 obtain out s h' where e: "calculate_rsi echo_talib None rsi0 [df0, df0] = (Inr out, s, h')"
      by blast
    from T[THEN conjunct2, THEN conjunct2, THEN conjunct2, THEN conjunct2, THEN conjunct1] e have "fst (calculate_rsi echo_talib None s h') = Inr out"
      by blast
    with e show ?thesis by blast
  qed
  have c6: "\<exists>out s h'. calculate_macd echo_talib None None None macd0 [df0, df0] = (Inr out, s, h')
            \<and> fst (calculate_macd echo_talib None None None s h') = Inr out"
  proof -
    from e6 obtain out s h' where e: "calculate_macd echo_talib None None None macd0 [df0, df0] = (Inr out, s, h')"
      by blast
    from T[THEN conjunct2, THEN conjunct2, THEN conjunct2, THEN conjunct2, THEN conjunct2, THEN conjunct1] e have "fst (calculate_macd echo_talib None None None s h') = Inr out"
      by blast
    with e show ?thesis by blast
  qed
  have c7: "\<exists>out s h'. calculate_sma echo_talib None ma0 [df0, df0] = (Inr out, s, h')
            \<and> fst (calculate_sma echo_talib None s h') = Inr out"
  proof -
    from e7 obtain out s h' where e: "calculate_sma echo_talib None ma0 [df0, df0] = (Inr out, s, h')"
      by blast
    from T[THEN conjunct2, THEN conjunct2, THEN conjunct2, THEN conjunct2, THEN conjunct2, THEN conjunct2, THEN conjunct1] e have "fst (calculate_sma echo_talib None s h') = Inr out"
      by blast
    with e show ?thesis by blast
  qed
  have c8: "\<exists>out s h'. calculate_ema echo_talib None ma0 [df0, df0] = (Inr out, s, h')
            \<and> fst (calculate_ema echo_talib None s h') = Inr out"
  proof -
    from e8 obtain out s h' where e: "calculate_ema echo_talib None ma0 [df0, df0] = (Inr out, s, h')"
      by blast
    from T[THEN conjunct2, THEN conjunct2, THEN conjunct2, THEN conjunct2, THEN conjunct2, THEN conjunct2, THEN conjunct2, THEN conjunct1] e have "fst (calculate_ema echo_talib None s h') = Inr out"
      by blast
    with e show ?thesis by blast
  qed
  have c9: "\<exists>out s h'. calculate_all_ma echo_talib ma0 [df0, df0] = (Inr out, s, h')
            \<and> fst (calculate_all_ma echo_talib s h') = Inr out"
  proof -
    from e9 obtain out s h' where e: "calculate_all_ma echo_talib ma0 [df0, df0] = (Inr out, s, h')"
      by blast
    from T[THEN conjunct2, THEN conjunct2, THEN conjunct2, THEN conjunct2, THEN conjunct2, THEN conjunct2, THEN conjunct2, THEN conjunct2] e have "fst (calculate_all_ma echo_talib s h') = Inr out"
      by blast
    with e show ?thesis by blast
  qed
  from c1 c2 c3 c4 c5 c6 c7 c8 c9 show ?thesis by (intro conjI)
qed

text \<open>
  C9. Constructing an indicator object copies the caller's frame, and every calculation
  of the object writes to that copy only: after the constructor and after any sequence of
  calculations (each with any arguments, raising or not, whatever the library functions
  compute), the caller's frame, like every frame that existed before, holds what it held;
  the heap differs from the one the constructor left only at the object's own copy.
\<close>

theorem C9_caller_frame_untouched:
  assumes "a < length h"
  shows
   "(\<forall>r h1. BollingerBands_init h a = (r, h1) \<longrightarrow> h1 ! a = h ! a \<and> frames_kept h h1
       \<and> (\<forall>self cs self' h2. r = Inr self \<and> bb_run ta cs self h1 = (self', h2)
             \<longrightarrow> h2 ! a = h ! a \<and> frames_kept h h2 \<and> only_at (length h) h1 h2))
  \<and> (\<forall>r h1. MovingAverageSystem_init h a = (r, h1) \<longrightarrow> h1 ! a = h ! a \<and> frames_kept h h1
       \<and> (\<forall>self cs self' h2. r = Inr self \<and> ma_run ta cs self h1 = (self', h2)
             \<longrightarrow> h2 ! a = h ! a \<and> frames_kept h h2 \<and> only_at (length h) h1 h2))
  \<and> (\<forall>r h1. KDJIndicator_init h a = (r, h1) \<longrightarrow> h1 ! a = h ! a \<and> frames_kept h h1
       \<and> (\<forall>self cs self' h2. r = Inr self \<and> kdj_run ta cs self h1 = (self', h2)
             \<longrightarrow> h2 ! a = h ! a \<and> frames_kept h h2 \<and> only_at (length h) h1 h2))
  \<and> (\<forall>r h1. RSIIndicator_init h a = (r, h1) \<longrightarrow> h1 ! a = h ! a \<and> frames_kept h h1
       \<and> (\<forall>self cs self' h2. r = Inr self \<and> rsi_run ta cs self h1 = (self', h2)
             \<longrightarrow> h2 ! a = h ! a \<and> frames_kept h h2 \<and> only_at (length h) h1 h2))
  \<and> (\<forall>r h1. MACDIndicator_init h a = (r, h1) \<longrightarrow> h1 ! a = h ! a \<and> frames_kept h h1
       \<and> (\<forall>self cs self' h2. r = Inr self \<and> macd_run ta cs self h1 = (self', h2)
             \<longrightarrow> h2 ! a = h ! a \<and> frames_kept h h2 \<and> only_at (length h) h1 h2))"
proof -
  have k: "\<And>h1 h2. frames_kept h h1 \<Longrightarrow> only_at (length h) h1 h2
             \<Longrightarrow> h1 ! a = h ! a \<and> h2 ! a = h ! a \<and> frames_kept h h2"
    using assms by (auto simp: frames_kept_def only_at_def)
  have k1: "\<And>h1. frames_kept h h1 \<Longrightarrow> h1 ! a = h ! a"
    using assms by (simp add: frames_kept_def)
  have bb: "\<forall>r h1. BollingerBands_init h a = (r, h1) \<longrightarrow> h1 ! a = h ! a \<and> frames_kept h h1
       \<and> (\<forall>self cs self' h2. r = Inr self \<and> bb_run ta cs self h1 = (self', h2)
             \<longrightarrow> h2 ! a = h ! a \<and> frames_kept h h2 \<and> only_at (length h) h1 h2)"
  proof (intro allI impI conjI; (elim conjE)?)
    fix r h1 assume i: "BollingerBands_init h a = (r, h1)"
    note f = BollingerBands_init_frame [OF i]
    show "h1 ! a = h ! a" "frames_kept h h1" using f k1 by auto
    fix self cs self' h2 assume r: "r = Inr self" and run: "bb_run ta cs self h1 = (self', h2)"
    have "only_at (length h) h1 h2" using bb_run_frame [OF run] f r by simp
    then show "h2 ! a = h ! a" "frames_kept h h2" "only_at (length h) h1 h2"
      using k f by auto
  qed
  have ma: "\<forall>r h1. MovingAverageSystem_init h a = (r, h1) \<longrightarrow> h1 ! a = h ! a \<and> frames_kept h h1
       \<and> (\<forall>self cs self' h2. r = Inr self \<and> ma_run ta cs self h1 = (self', h2)
             \<longrightarrow> h2 ! a = h ! a \<and> frames_kept h h2 \<and> only_at (length h) h1 h2)"
  proof (intro allI impI conjI; (elim conjE)?)
    fix r h1 assume i: "MovingAverageSystem_init h a = (r, h1)"
    note f = MovingAverageSystem_init_frame [OF i]
    show "h1 ! a = h ! a" "frames_kept h h1" using f k1 by auto
    fix self cs self' h2 assume r: "r = Inr self" and run: "ma_run ta cs self h1 = (self', h2)"
    have "only_at (length h) h1 h2" using ma_run_frame [OF run] f r by simp
    then show "h2 ! a = h ! a" "frames_kept h h2" "only_at (length h) h1 h2"
      using k f by auto
  qed
  have kdj: "\<forall>r h1. KDJIndicator_init h a = (r, h1) \<longrightarrow> h1 ! a = h ! a \<and> frames_kept h h1
       \<and> (\<forall>self cs self' h2. r = Inr self \<and> kdj_run ta cs self h1 = (self', h2)
             \<longrightarrow> h2 ! a = h ! a \<and> frames_kept h h2 \<and> only_at (length h) h1 h2)"
  proof (intro allI impI conjI; (elim conjE)?)
    fix r h1 assume i: "KDJIndicator_init h a = (r, h1)"
    note f = KDJIndicator_init_frame [OF i]
    show "h1 ! a = h ! a" "frames_kept h h1" using f k1 by auto
    fix self cs self' h2 assume r: "r = Inr self" and run: "kdj_run ta cs self h1 = (self', h2)"
    have "only_at (length h) h1 h2" using kdj_run_frame [OF run] f r by simp
    then show "h2 ! a = h ! a" "frames_kept h h2" "only_at (length h) h1 h2"
      using k f by auto
  qed
  have rsi: "\<forall>r h1. RSIIndicator_init h a = (r, h1) \<longrightarrow> h1 ! a = h ! a \<and> frames_kept h h1
       \<and> (\<forall>self cs self' h2. r = Inr self \<and> rsi_run ta cs self h1 = (self', h2)
             \<longrightarrow> h2 ! a = h ! a \<and> frames_kept h h2 \<and> only_at (length h) h1 h2)"
  proof (intro allI impI conjI; (elim conjE)?)
    fix r h1 assume i: "RSIIndicator_init h a = (r, h1)"
    note f = RSIIndicator_init_frame [OF i]
    show "h1 ! a = h ! a" "frames_kept h h1" using f k1 by auto
    fix self cs self' h2 assume r: "r = Inr self" and run: "rsi_run ta cs self h1 = (self', h2)"
    have "only_at (length h) h1 h2" using rsi_run_frame [OF run] f r by simp
    then show "h2 ! a = h ! a" "frames_kept h h2" "only_at (length h) h1 h2"
      using k f by auto
  qed
  have macd: "\<forall>r h1. MACDIndicator_init h a = (r, h1) \<longrightarrow> h1 ! a = h ! a \<and> frames_kept h h1
       \<and> (\<forall>self cs self' h2. r = Inr self \<and> macd_run ta cs self h1 = (self', h2)
             \<longrightarrow> h2 ! a = h ! a \<and> frames_kept h h2 \<and> only_at (length h) h1 h2)"
  proof (intro allI impI conjI; (elim conjE)?)
    fix r h1 assume i: "MACDIndicator_init h a = (r, h1)"
    note f = MACDIndicator_init_frame [OF i]
    show "h1 ! a = h ! a" "frames_kept h h1" using f k1 by auto
    fix self cs self' h2 assume r: "r = Inr self" and run: "macd_run ta cs self h1 = (self', h2)"
    have "only_at (length h) h1 h2" using macd_run_frame [OF run] f r by simp
    then show "h2 ! a = h ! a" "frames_kept h h2" "only_at (length h) h1 h2"
      using k f by auto
  qed
  from bb ma kdj rsi macd show ?thesis by (intro conjI)
qed

theorem C9_caller_frame_untouched_witness:
  "BollingerBands_init [df0] 0 = (Inr bb0, [df0, df0])
   \<and> snd (bb_run echo_talib
            [Calculate_bollinger_bands None None, Calculate_band_width, Calculate_percent_b]
            bb0 [df0, df0]) ! 0 = df0
   \<and> snd (bb_run echo_talib
            [Calculate_bollinger_bands None None, Calculate_band_width, Calculate_percent_b]
            bb0 [df0, df0]) ! 1 \<noteq> df0
   \<and> MovingAverageSystem_init [df0] 0 = (Inr ma0, [df0, df0])
   \<and> snd (ma_run echo_talib [Calculate_all_ma] ma0 [df0, df0]) ! 0 = df0
   \<and> KDJIndicator_init [df0] 0 = (Inr kdj0, [df0, df0])
   \<and> snd (kdj_run echo_talib [Calculate_kdj None None None] kdj0 [df0, df0]) ! 0 = df0
   \<and> RSIIndicator_init [df0] 0 = (Inr rsi0, [df0, df0])
   \<and> snd (rsi_run echo_talib [Calculate_rsi None] rsi0 [df0, df0]) ! 0 = df0
   \<and> MACDIndicator_init [df0] 0 = (Inr macd0, [df0, df0])
   \<and> snd (macd_run echo_talib [Calculate_macd None None None] macd0 [df0, df0]) ! 0 = df0"
proof -
  have a: "(0::nat) < length [df0]" by simp
  note T = C9_caller_frame_untouched [OF a, where ta = echo_talib]
  have i1: "BollingerBands_init [df0] 0 = (Inr bb0, [df0, df0])"
    by (simp add: BollingerBands_init_def df_copy_def df_get_def get_item_def df0_def bb0_def)
  have i2: "MovingAverageSystem_init [df0] 0 = (Inr ma0, [df0, df0])"
    by (simp add: MovingAverageSystem_init_def df_copy_def df_get_def get_item_def df0_def
        ma0_def)
  have i3: "KDJIndicator_init [df0] 0 = (Inr kdj0, [df0, df0])"
    by (simp add: KDJIndicator_init_def df_copy_def df_get_def get_item_def df0_def kdj0_def)
  have i4: "RSIIndicator_init [df0] 0 = (Inr rsi0, [df0, df0])"
    by (simp add: RSIIndicator_init_def df_copy_def df_get_def get_item_def df0_def rsi0_def)
  have i5: "MACDIndicator_init [df0] 0 = (Inr macd0, [df0, df0])"
    by (simp add: MACDIndicator_init_def df_copy_def df_get_def get_item_def df0_def
        macd0_def)
  have r1: "\<And>cs. snd (bb_run echo_talib cs bb0 [df0, df0]) ! 0 = df0"
    using T i1 by (metis nth_Cons_0 prod.collapse)
  have r2: "\<And>cs. snd (ma_run echo_talib cs ma0 [df0, df0]) ! 0 = df0"
    using T i2 by (metis nth_Cons_0 prod.collapse)
  have r3: "\<And>cs. snd (kdj_run echo_talib cs kdj0 [df0, df0]) ! 0 = df0"
    using T i3 by (metis nth_Cons_0 prod.collapse)
  have r4: "\<And>cs. snd (rsi_run echo_talib cs rsi0 [df0, df0]) ! 0 = df0"
    using T i4 by (metis nth_Cons_0 prod.collapse)
  have r5: "\<And>cs. snd (macd_run echo_talib cs macd0 [df0, df0]) ! 0 = df0"
    using T i5 by (metis nth_Cons_0 prod.collapse)
  have w: "snd (bb_run echo_talib
            [Calculate_bollinger_bands None None, Calculate_band_width, Calculate_percent_b]
            bb0 [df0, df0]) ! 1 \<noteq> df0"
    by (simp add: calculate_bollinger_bands_def bollinger_dict_def echo_talib_def bb0_def
        df0_def mk_series_def default_def calculate_band_width_def calculate_percent_b_def
        ensure_bollinger_def get_item_def df_set_all_def df_set_def)
  from i1 i2 i3 i4 i5 r1 r2 r3 r4 r5 w show ?thesis by (intro conjI)
qed

end
